theory Spec2Isabelle
  imports
    Main
    "HOL-Library.Word"
    "HOL-Library.Char_ord"
    "HOL-Library.List_Lexorder"
    "HOL-Library.Multiset"
begin

unbundle bit_operations_syntax

section \<open>Go values used by package machineid\<close>

text \<open>
  A Go \<open>string\<close> is a sequence of bytes; HOL's \<open>char\<close> is one byte, so a Go string is a
  \<open>string\<close> (a \<open>char list\<close>) here, and \<open>[]byte(s)\<close> is the list of its character codes.
\<close>

type_synonym byte = "8 word"

definition bytes_of :: "string \<Rightarrow> byte list" where
  "bytes_of s = map (\<lambda>c. of_nat (of_char c)) s"

subsection \<open>Errors\<close>

text \<open>
  The \<open>error\<close> values that reach the package: the sentinels \<open>os.ErrNotExist\<close> and
  \<open>os.ErrPermission\<close>, the result of \<open>errors.New(msg)\<close>, a \<open>syscall.Errno\<close>, and a
  \<open>*fs.PathError{Op, Path, Err}\<close>, which is what \<open>os.ReadFile\<close> returns and which wraps
  the underlying error. A nil \<open>error\<close> is \<open>None\<close> of \<open>error option\<close>.
\<close>

datatype error =
    ErrNotExist
  | ErrPermission
  | ErrorString string
  | Errno nat
  | PathError string string error

text \<open>
  The \<open>Is\<close> method of \<open>syscall.Errno\<close> (Unix numbering: ENOENT = 2, EPERM = 1,
  EACCES = 13); no other error of the model has an \<open>Is\<close> method.
\<close>

fun Is_method :: "error \<Rightarrow> error \<Rightarrow> bool" where
  "Is_method (Errno n) ErrNotExist = (n = 2)"
| "Is_method (Errno n) ErrPermission = (n = 13 \<or> n = 1)"
| "Is_method _ _ = False"

text \<open>
  \<open>errors.Is(err, target)\<close> for a non-nil target: walk the \<open>Unwrap\<close> chain of \<open>err\<close>,
  answering true at the first error that equals the target or whose \<open>Is\<close> method accepts it.
  Only \<open>*fs.PathError\<close> has an \<open>Unwrap\<close> method; it returns the wrapped error. For a nil
  \<open>err\<close> the answer is false.
\<close>

fun errors_Is_chain :: "error \<Rightarrow> error \<Rightarrow> bool" where
  "errors_Is_chain (PathError opn path e) target =
     (PathError opn path e = target \<or> errors_Is_chain e target)"
| "errors_Is_chain e target = (e = target \<or> Is_method e target)"

definition errors_Is :: "error option \<Rightarrow> error \<Rightarrow> bool" where
  "errors_Is err target = (case err of None \<Rightarrow> False | Some e \<Rightarrow> errors_Is_chain e target)"

subsection \<open>Package strings\<close>

text \<open>
  \<open>strings.TrimSpace\<close> removes the leading and trailing runes for which
  \<open>unicode.IsSpace\<close> holds. Those runes are the six ASCII ones (tab, line feed, vertical
  tab, form feed, carriage return, space), U+0085, U+00A0, U+1680, U+2000 to U+200A, U+2028,
  U+2029, U+202F, U+205F and U+3000. On the bytes of a string a rune is its UTF-8 encoding:
  a leading (trailing) rune is a space exactly when one of these encodings is a prefix
  (suffix) of the string, since a byte sequence that is not a valid encoding decodes to
  \<open>utf8.RuneError\<close>, which is not a space.
\<close>

definition space_encodings :: "string list" where
  "space_encodings =
     [[CHR 0x09], [CHR 0x0A], [CHR 0x0B], [CHR 0x0C], [CHR 0x0D], [CHR 0x20],
      [CHR 0xC2, CHR 0x85], [CHR 0xC2, CHR 0xA0],
      [CHR 0xE1, CHR 0x9A, CHR 0x80],
      [CHR 0xE2, CHR 0x80, CHR 0x80], [CHR 0xE2, CHR 0x80, CHR 0x81],
      [CHR 0xE2, CHR 0x80, CHR 0x82], [CHR 0xE2, CHR 0x80, CHR 0x83],
      [CHR 0xE2, CHR 0x80, CHR 0x84], [CHR 0xE2, CHR 0x80, CHR 0x85],
      [CHR 0xE2, CHR 0x80, CHR 0x86], [CHR 0xE2, CHR 0x80, CHR 0x87],
      [CHR 0xE2, CHR 0x80, CHR 0x88], [CHR 0xE2, CHR 0x80, CHR 0x89],
      [CHR 0xE2, CHR 0x80, CHR 0x8A],
      [CHR 0xE2, CHR 0x80, CHR 0xA8], [CHR 0xE2, CHR 0x80, CHR 0xA9],
      [CHR 0xE2, CHR 0x80, CHR 0xAF],
      [CHR 0xE2, CHR 0x81, CHR 0x9F],
      [CHR 0xE3, CHR 0x80, CHR 0x80]]"

definition is_prefix :: "string \<Rightarrow> string \<Rightarrow> bool" where
  "is_prefix p s = (take (length p) s = p)"

definition is_suffix :: "string \<Rightarrow> string \<Rightarrow> bool" where
  "is_suffix p s = (length p \<le> length s \<and> drop (length s - length p) s = p)"

text \<open>The width in bytes of the space rune a string starts (ends) with, or 0.\<close>

definition leading_space :: "string \<Rightarrow> nat" where
  "leading_space s =
     (case filter (\<lambda>p. is_prefix p s) space_encodings of [] \<Rightarrow> 0 | p # _ \<Rightarrow> length p)"

definition trailing_space :: "string \<Rightarrow> nat" where
  "trailing_space s =
     (case filter (\<lambda>p. is_suffix p s) space_encodings of [] \<Rightarrow> 0 | p # _ \<Rightarrow> length p)"

function TrimLeft_space :: "string \<Rightarrow> string" where
  "TrimLeft_space s =
     (if s = [] \<or> leading_space s = 0 then s else TrimLeft_space (drop (leading_space s) s))"
  by pat_completeness auto
termination
  by (relation "measure length") auto

function TrimRight_space :: "string \<Rightarrow> string" where
  "TrimRight_space s =
     (if s = [] \<or> trailing_space s = 0 then s
      else TrimRight_space (take (length s - trailing_space s) s))"
  by pat_completeness auto
termination
  by (relation "measure length") auto

definition TrimSpace :: "string \<Rightarrow> string" where
  "TrimSpace s = TrimRight_space (TrimLeft_space s)"

text \<open>
  \<open>strings.ToLower\<close>. A string of ASCII bytes is returned as it is when it has no byte
  from \<open>A\<close> to \<open>Z\<close>, and otherwise with \<open>'a' - 'A'\<close> added to each such byte. For a
  string with a byte from 0x80 (\<open>utf8.RuneSelf\<close>) on, the result is
  \<open>strings.Map(unicode.ToLower, s)\<close>, which decodes the string into runes and maps each
  rune through the Unicode case tables of the Go release the package is built with (U+212A,
  the Kelvin sign, becomes \<open>k\<close>). These tables are not in the repository: that function
  is the parameter \<open>unicodeMap\<close>.
\<close>

definition isASCII :: "string \<Rightarrow> bool" where
  "isASCII s = list_all (\<lambda>c. c < CHR 0x80) s"

definition hasUpper :: "string \<Rightarrow> bool" where
  "hasUpper s = list_ex (\<lambda>c. CHR ''A'' \<le> c \<and> c \<le> CHR ''Z'') s"

definition lower_byte :: "char \<Rightarrow> char" where
  "lower_byte c =
     (if CHR ''A'' \<le> c \<and> c \<le> CHR ''Z'' then char_of (of_char c + (32::nat)) else c)"

definition ToLower :: "(string \<Rightarrow> string) \<Rightarrow> string \<Rightarrow> string" where
  "ToLower unicodeMap s =
     (if isASCII s
      then (if \<not> hasUpper s then s else map lower_byte s)
      else unicodeMap s)"

text \<open>\<open>strings.Contains(s, substr)\<close>: \<open>substr\<close> occurs in \<open>s\<close> at some position.\<close>

fun Contains :: "string \<Rightarrow> string \<Rightarrow> bool" where
  "Contains [] substr = (substr = [])"
| "Contains (c # cs) substr = (is_prefix substr (c # cs) \<or> Contains cs substr)"

text \<open>\<open>strings.Join(elems, sep)\<close>.\<close>

fun Join :: "string list \<Rightarrow> string \<Rightarrow> string" where
  "Join [] sep = []"
| "Join [x] sep = x"
| "Join (x # y # ys) sep = x @ sep @ Join (y # ys) sep"

subsection \<open>crypto/sha256 and encoding/hex\<close>

text \<open>
  \<open>sha256.New\<close>, \<open>Write\<close> and \<open>Sum(nil)\<close> on one byte string: the digest state starts at
  the initial hash value, the message is followed by the padding of \<open>checkSum\<close> (a byte
  0x80, zero bytes up to 56 modulo 64, the length in bits as a big-endian \<open>uint64\<close>), and
  \<open>blockGeneric\<close> consumes the result in blocks of 64 bytes. \<open>uint32\<close> is \<open>32 word\<close>, so
  \<open>+\<close> wraps. \<open>Write\<close> of a SHA-256 digest never returns an error.
\<close>

type_synonym u32 = "32 word"

definition RotateLeft32 :: "u32 \<Rightarrow> int \<Rightarrow> u32" where
  "RotateLeft32 x k = push_bit (nat (k mod 32)) x OR drop_bit (32 - nat (k mod 32)) x"

definition init_h :: "u32 list" where
  "init_h = [0x6a09e667, 0xbb67ae85, 0x3c6ef372, 0xa54ff53a,
             0x510e527f, 0x9b05688c, 0x1f83d9ab, 0x5be0cd19]"

definition K_consts :: "u32 list" where
  "K_consts =
     [0x428a2f98, 0x71374491, 0xb5c0fbcf, 0xe9b5dba5, 0x3956c25b, 0x59f111f1, 0x923f82a4, 0xab1c5ed5] @
     [0xd807aa98, 0x12835b01, 0x243185be, 0x550c7dc3, 0x72be5d74, 0x80deb1fe, 0x9bdc06a7, 0xc19bf174] @
     [0xe49b69c1, 0xefbe4786, 0x0fc19dc6, 0x240ca1cc, 0x2de92c6f, 0x4a7484aa, 0x5cb0a9dc, 0x76f988da] @
     [0x983e5152, 0xa831c66d, 0xb00327c8, 0xbf597fc7, 0xc6e00bf3, 0xd5a79147, 0x06ca6351, 0x14292967] @
     [0x27b70a85, 0x2e1b2138, 0x4d2c6dfc, 0x53380d13, 0x650a7354, 0x766a0abb, 0x81c2c92e, 0x92722c85] @
     [0xa2bfe8a1, 0xa81a664b, 0xc24b8b70, 0xc76c51a3, 0xd192e819, 0xd6990624, 0xf40e3585, 0x106aa070] @
     [0x19a4c116, 0x1e376c08, 0x2748774c, 0x34b0bcb5, 0x391c0cb3, 0x4ed8aa4a, 0x5b9cca4f, 0x682e6ff3] @
     [0x748f82ee, 0x78a5636f, 0x84c87814, 0x8cc70208, 0x90befffa, 0xa4506ceb, 0xbef9a3f7, 0xc67178f2]"

text \<open>
  \<open>blockGeneric\<close>, one block: the first 16 words of \<open>w\<close> are the block read as
  big-endian \<open>uint32\<close>s, the other 48 are computed from earlier ones (the loop over
  \<open>i\<close> from 16 to 63), and the 64 rounds update the eight working variables, which are
  then added to the digest state.
\<close>

fun be_words :: "byte list \<Rightarrow> u32 list" where
  "be_words (b0 # b1 # b2 # b3 # bs) =
     (push_bit 24 (ucast b0) OR push_bit 16 (ucast b1) OR push_bit 8 (ucast b2) OR ucast b3)
       # be_words bs"
| "be_words _ = []"

definition schedule_step :: "u32 list \<Rightarrow> nat \<Rightarrow> u32 list" where
  "schedule_step w i =
     w @ [((RotateLeft32 (w ! (i - 2)) (-17)) XOR (RotateLeft32 (w ! (i - 2)) (-19))
             XOR (drop_bit 10 (w ! (i - 2))))
          + w ! (i - 7)
          + ((RotateLeft32 (w ! (i - 15)) (-7)) XOR (RotateLeft32 (w ! (i - 15)) (-18))
             XOR (drop_bit 3 (w ! (i - 15))))
          + w ! (i - 16)]"

definition schedule :: "byte list \<Rightarrow> u32 list" where
  "schedule p = foldl schedule_step (be_words (take 64 p)) [16 ..< 64]"

type_synonym regs = "u32 \<times> u32 \<times> u32 \<times> u32 \<times> u32 \<times> u32 \<times> u32 \<times> u32"

fun shift_regs :: "regs \<Rightarrow> u32 \<Rightarrow> u32 \<Rightarrow> regs" where
  "shift_regs (a, b, c, d, e, f, g, h) t1 t2 = (t1 + t2, a, b, c, d + t1, e, f, g)"

fun round_t1 :: "regs \<Rightarrow> u32 \<Rightarrow> u32 \<Rightarrow> u32" where
  "round_t1 (a, b, c, d, e, f, g, h) k w =
     h + ((RotateLeft32 e (-6)) XOR (RotateLeft32 e (-11)) XOR (RotateLeft32 e (-25)))
       + ((e AND f) XOR (NOT e AND g)) + k + w"

fun round_t2 :: "regs \<Rightarrow> u32" where
  "round_t2 (a, b, c, d, e, f, g, h) =
     ((RotateLeft32 a (-2)) XOR (RotateLeft32 a (-13)) XOR (RotateLeft32 a (-22)))
       + ((a AND b) XOR (a AND c) XOR (b AND c))"

definition round_step :: "regs \<Rightarrow> u32 \<times> u32 \<Rightarrow> regs" where
  "round_step r kw = shift_regs r (round_t1 r (fst kw) (snd kw)) (round_t2 r)"

fun regs_of :: "u32 list \<Rightarrow> regs" where
  "regs_of [h0, h1, h2, h3, h4, h5, h6, h7] = (h0, h1, h2, h3, h4, h5, h6, h7)"
| "regs_of _ = (0, 0, 0, 0, 0, 0, 0, 0)"

fun add_regs :: "u32 list \<Rightarrow> regs \<Rightarrow> u32 list" where
  "add_regs [h0, h1, h2, h3, h4, h5, h6, h7] (a, b, c, d, e, f, g, h) =
     [h0 + a, h1 + b, h2 + c, h3 + d, h4 + e, h5 + f, h6 + g, h7 + h]"
| "add_regs hs _ = hs"

definition block :: "u32 list \<Rightarrow> byte list \<Rightarrow> u32 list" where
  "block hs p = add_regs hs (foldl round_step (regs_of hs) (zip K_consts (schedule p)))"

function blockGeneric :: "u32 list \<Rightarrow> byte list \<Rightarrow> u32 list" where
  "blockGeneric hs p =
     (if length p \<ge> 64 then blockGeneric (block hs p) (drop 64 p) else hs)"
  by pat_completeness auto
termination
  by (relation "measure (\<lambda>(hs, p). length p)") auto

text \<open>
  \<open>binary.BigEndian.PutUint64\<close> and \<open>PutUint32\<close>, the padding of \<open>checkSum\<close> for a
  message of \<open>n\<close> bytes, and the digest of a whole message.
\<close>

definition PutUint64 :: "64 word \<Rightarrow> byte list" where
  "PutUint64 v = map (\<lambda>i. ucast (drop_bit (8 * (7 - i)) v)) [0 ..< 8]"

definition PutUint32 :: "u32 \<Rightarrow> byte list" where
  "PutUint32 v = map (\<lambda>i. ucast (drop_bit (8 * (3 - i)) v)) [0 ..< 4]"

definition padding :: "nat \<Rightarrow> byte list" where
  "padding n =
     (let t = (if n mod 64 < 56 then 56 - n mod 64 else 64 + 56 - n mod 64)
      in 0x80 # replicate (t - 1) 0 @ PutUint64 (push_bit 3 (of_nat n)))"

definition Sum256 :: "byte list \<Rightarrow> byte list" where
  "Sum256 msg = concat (map PutUint32 (blockGeneric init_h (msg @ padding (length msg))))"

text \<open>\<open>hex.EncodeToString\<close>: two digits of \<open>0123456789abcdef\<close> for each byte.\<close>

definition hexDigit :: "byte \<Rightarrow> char" where
  "hexDigit b = ''0123456789abcdef'' ! unat b"

definition EncodeToString :: "byte list \<Rightarrow> string" where
  "EncodeToString bs = concat (map (\<lambda>b. [hexDigit (drop_bit 4 b), hexDigit (b AND 0x0f)]) bs)"

section \<open>Package machineid\<close>

subsection \<open>protect\<close>

text \<open>
  \<open>protect\<close> returns \<open>("", err)\<close> or \<open>(digest, nil)\<close>: a sum, with \<open>Inl\<close> the error.
\<close>

definition protect :: "string \<Rightarrow> error + string" where
  "protect s =
     (let s = TrimSpace s
      in if s = [] then Inl (ErrorString ''empty machine id'')
         else Inr (EncodeToString (Sum256 (bytes_of s))))"

subsection \<open>Network interfaces\<close>

text \<open>
  \<open>net.Interface\<close> with the fields the package reads. \<open>net.Flags\<close> is a \<open>uint\<close>;
  \<open>FlagLoopback\<close> is \<open>1 << 2\<close>.
\<close>

record Interface =
  Name :: string
  Flags :: "64 word"
  HardwareAddr :: "byte list"

definition FlagUp :: "64 word" where
  "FlagUp = push_bit 0 1"

definition FlagLoopback :: "64 word" where
  "FlagLoopback = push_bit 2 1"

text \<open>\<open>HardwareAddr.String\<close>: two hex digits for each byte, separated by colons.\<close>

definition HardwareAddr_String :: "byte list \<Rightarrow> string" where
  "HardwareAddr_String a =
     Join (map (\<lambda>b. [hexDigit (drop_bit 4 b), hexDigit (b AND 0x0f)]) a) '':''"

subsection \<open>The package state and its hooks\<close>

text \<open>
  The package variables \<open>cachedRawID\<close>, \<open>cachedPrefix\<close> and \<open>initialized\<close>, together
  with \<open>world\<close>, everything outside the package that the hooks read or change (files, the
  interface table, a test's call counter), and \<open>calls\<close>, the record of the hooks invoked so
  far, oldest first. \<open>calls\<close> is not a variable of the package: it is what a claim about
  which hook runs is stated on. The mutex \<open>mu\<close> serialises the callers of \<open>loadInfo\<close>; the
  model is one caller at a time.
\<close>

datatype hook = EnvType | MachineID | NetInterfaces

record 'w machine =
  cachedRawID :: string
  cachedPrefix :: string
  initialized :: bool
  world :: 'w
  calls :: "hook list"

text \<open>
  What the package code runs against. The function variables \<open>netInterfaces\<close>,
  \<open>getEnvTypeFunc\<close> and \<open>getMachineIDFunc\<close>: each reads the world and may change it;
  \<open>(v, err)\<close> results are pairs, because \<open>loadInfo\<close> looks at both components. And
  \<open>toLowerUnicode\<close>, which is not a variable of the package: it is the function
  \<open>strings.Map(unicode.ToLower, s)\<close> of the Go library that \<open>strings.ToLower\<close> applies to
  a string that is not ASCII, and it stands for the Unicode case tables, which are not in
  the repository. It is pure.
\<close>

record 'w hooks =
  netInterfaces :: "'w \<Rightarrow> (Interface list \<times> error option) \<times> 'w"
  getEnvTypeFunc :: "'w \<Rightarrow> string \<times> 'w"
  getMachineIDFunc :: "'w \<Rightarrow> (string \<times> error option) \<times> 'w"
  toLowerUnicode :: "string \<Rightarrow> string"

definition invoke :: "hook \<Rightarrow> ('w \<Rightarrow> 'a \<times> 'w) \<Rightarrow> 'w machine \<Rightarrow> 'a \<times> 'w machine" where
  "invoke k f s =
     (case f (world s) of (r, w) \<Rightarrow> (r, s\<lparr>world := w, calls := calls s @ [k]\<rparr>))"

text \<open>The zero values of the package variables, in a given world.\<close>

definition initial :: "'w \<Rightarrow> 'w machine" where
  "initial w =
     \<lparr>cachedRawID = [], cachedPrefix = [], initialized = False, world = w, calls = []\<rparr>"

subsection \<open>getHardwareId\<close>

text \<open>
  The loop over the interfaces; \<open>macs\<close> is the slice built so far, and \<open>unicodeMap\<close> is
  what \<open>strings.ToLower\<close> does to a name that is not ASCII.
\<close>

fun collect_macs ::
  "(string \<Rightarrow> string) \<Rightarrow> Interface list \<Rightarrow> string list \<Rightarrow> string list" where
  "collect_macs unicodeMap [] macs = macs"
| "collect_macs unicodeMap (iface # rest) macs =
     (if Flags iface AND FlagLoopback \<noteq> 0 \<or> length (HardwareAddr iface) = 0
      then collect_macs unicodeMap rest macs
      else if Contains (ToLower unicodeMap (Name iface)) ''docker'' \<or>
              Contains (ToLower unicodeMap (Name iface)) ''veth'' \<or>
              Contains (ToLower unicodeMap (Name iface)) ''tun'' \<or>
              Contains (ToLower unicodeMap (Name iface)) ''tap''
      then collect_macs unicodeMap rest macs
      else collect_macs unicodeMap rest (macs @ [HardwareAddr_String (HardwareAddr iface)]))"

text \<open>
  \<open>sort.Strings\<close> orders strings bytewise, a proper prefix first: the order of
  \<open>string\<close> here. Equal strings cannot be told apart, so the result is \<open>sort\<close>.
\<close>

definition hardwareId_of :: "(string \<Rightarrow> string) \<Rightarrow> Interface list \<Rightarrow> error + string" where
  "hardwareId_of unicodeMap interfaces =
     (let macs = sort (collect_macs unicodeMap interfaces [])
      in if length macs = 0
         then Inl (ErrorString ''no valid network interfaces found for hardware ID fallback'')
         else Inr (Join macs '',''))"

definition getHardwareId :: "'w hooks \<Rightarrow> 'w machine \<Rightarrow> (error + string) \<times> 'w machine" where
  "getHardwareId h s =
     (case invoke NetInterfaces (netInterfaces h) s of
        ((interfaces, Some err), s') \<Rightarrow> (Inl err, s')
      | ((interfaces, None), s') \<Rightarrow> (hardwareId_of (toLowerUnicode h) interfaces, s'))"

subsection \<open>loadInfo\<close>

text \<open>The result of \<open>getHardwareId\<close> as the pair \<open>(id, err)\<close> that \<open>loadInfo\<close> assigns.\<close>

fun id_err :: "error + string \<Rightarrow> string \<times> error option" where
  "id_err (Inl e) = ([], Some e)"
| "id_err (Inr v) = (v, None)"

text \<open>
  The end of \<open>loadInfo\<close>, from the second \<open>if err != nil\<close> on: return the error, or
  store the identity and the prefix and set \<open>initialized\<close>.
\<close>

definition store :: "string \<Rightarrow> string \<times> error option \<Rightarrow> 'w machine \<Rightarrow> error option \<times> 'w machine" where
  "store prefix r s =
     (case snd r of
        Some err \<Rightarrow> (Some err, s)
      | None \<Rightarrow> (None, s\<lparr>cachedRawID := fst r, cachedPrefix := prefix, initialized := True\<rparr>))"

definition loadInfo :: "'w hooks \<Rightarrow> 'w machine \<Rightarrow> error option \<times> 'w machine" where
  "loadInfo h s =
     (if initialized s then (None, s)
      else
        case invoke EnvType (getEnvTypeFunc h) s of (prefix, s1) \<Rightarrow>
        case invoke MachineID (getMachineIDFunc h) s1 of ((id', err), s2) \<Rightarrow>
          if errors_Is err ErrNotExist \<or> (err = None \<and> id' = [])
          then (case getHardwareId h s2 of (r, s3) \<Rightarrow> store prefix (id_err r) s3)
          else if err \<noteq> None then (err, s2)
          else store prefix (id', err) s2)"

subsection \<open>ID and ProtectedID\<close>

definition ID :: "'w hooks \<Rightarrow> 'w machine \<Rightarrow> (error + string) \<times> 'w machine" where
  "ID h s =
     (case loadInfo h s of
        (Some err, s') \<Rightarrow> (Inl err, s')
      | (None, s') \<Rightarrow>
          (case protect (cachedRawID s') of
             Inl err \<Rightarrow> (Inl err, s')
           | Inr hash \<Rightarrow> (Inr (cachedPrefix s' @ '':'' @ hash), s')))"

definition ProtectedID :: "'w hooks \<Rightarrow> string \<Rightarrow> 'w machine \<Rightarrow> (error + string) \<times> 'w machine" where
  "ProtectedID h appID s =
     (case loadInfo h s of
        (Some err, s') \<Rightarrow> (Inl err, s')
      | (None, s') \<Rightarrow>
          (case protect (cachedRawID s' @ '':'' @ appID) of
             Inl err \<Rightarrow> (Inl err, s')
           | Inr hash \<Rightarrow> (Inr (cachedPrefix s' @ '':'' @ hash), s')))"

text \<open>A caller of the package: any sequence of calls of the two exported functions.\<close>

datatype api_call = Call_ID | Call_ProtectedID string

fun api :: "'w hooks \<Rightarrow> api_call \<Rightarrow> 'w machine \<Rightarrow> (error + string) \<times> 'w machine" where
  "api h Call_ID s = ID h s"
| "api h (Call_ProtectedID appID) s = ProtectedID h appID s"

fun run :: "'w hooks \<Rightarrow> api_call list \<Rightarrow> 'w machine \<Rightarrow> (error + string) list \<times> 'w machine" where
  "run h [] s = ([], s)"
| "run h (c # cs) s =
     (case api h c s of (r, s') \<Rightarrow> (case run h cs s' of (rs, s'') \<Rightarrow> (r # rs, s'')))"

subsection \<open>The primary identity source where no platform file applies\<close>

text \<open>\<open>getMachineID\<close> of \<open>id_unknown.go\<close> (build tag: not linux, darwin or windows).\<close>

definition getMachineID_unknown :: "'w \<Rightarrow> (string \<times> error option) \<times> 'w" where
  "getMachineID_unknown w = (([], Some (ErrorString ''os not supported'')), w)"

subsection \<open>The steps of one resolution\<close>

text \<open>
  What the slow path of \<open>loadInfo\<close> obtains from its hooks, in the order it calls them
  from a state \<open>s\<close>: the environment tag, the result of the primary source, the result of
  the hardware fallback, and the state after each call.
\<close>

definition env_tag :: "'w hooks \<Rightarrow> 'w machine \<Rightarrow> string" where
  "env_tag h s = fst (invoke EnvType (getEnvTypeFunc h) s)"

definition after_env :: "'w hooks \<Rightarrow> 'w machine \<Rightarrow> 'w machine" where
  "after_env h s = snd (invoke EnvType (getEnvTypeFunc h) s)"

definition primary :: "'w hooks \<Rightarrow> 'w machine \<Rightarrow> string \<times> error option" where
  "primary h s = fst (invoke MachineID (getMachineIDFunc h) (after_env h s))"

definition after_primary :: "'w hooks \<Rightarrow> 'w machine \<Rightarrow> 'w machine" where
  "after_primary h s = snd (invoke MachineID (getMachineIDFunc h) (after_env h s))"

definition fallback :: "'w hooks \<Rightarrow> 'w machine \<Rightarrow> error + string" where
  "fallback h s = fst (getHardwareId h (after_primary h s))"

definition after_fallback :: "'w hooks \<Rightarrow> 'w machine \<Rightarrow> 'w machine" where
  "after_fallback h s = snd (getHardwareId h (after_primary h s))"

subsection \<open>Test doubles\<close>

text \<open>
  \<open>mockInterfaces\<close> of the test file, hooks that return fixed values as its tests
  install them, and the counting primary source of \<open>TestLoadInfo_Idempotency\<close>, whose
  world is the counter \<open>callCount\<close>. The interface names of the tests are ASCII, so
  \<open>toLowerUnicode\<close> is never applied with these hooks; it is set to the identity.
\<close>

definition mockInterfaces ::
  "Interface list \<Rightarrow> error option \<Rightarrow> 'w \<Rightarrow> (Interface list \<times> error option) \<times> 'w" where
  "mockInterfaces ifaces err w = ((ifaces, err), w)"

definition mock_hooks ::
  "string \<Rightarrow> string \<times> error option \<Rightarrow> Interface list \<times> error option \<Rightarrow> unit hooks" where
  "mock_hooks env primary_result ifaces =
     \<lparr>netInterfaces = mockInterfaces (fst ifaces) (snd ifaces),
      getEnvTypeFunc = (\<lambda>w. (env, w)),
      getMachineIDFunc = (\<lambda>w. (primary_result, w)),
      toLowerUnicode = (\<lambda>name. name)\<rparr>"

definition counting_hooks :: "nat hooks" where
  "counting_hooks =
     \<lparr>netInterfaces = mockInterfaces [] None,
      getEnvTypeFunc = (\<lambda>callCount. (''test-env'', callCount)),
      getMachineIDFunc = (\<lambda>callCount. ((''unique-id'', None), callCount + 1)),
      toLowerUnicode = (\<lambda>name. name)\<rparr>"

definition eth0 :: Interface where
  "eth0 = \<lparr>Name = ''eth0'', Flags = FlagUp,
            HardwareAddr = [0xAA, 0xBB, 0xCC, 0xDD, 0xEE, 0xFF]\<rparr>"

text \<open>
  A primary source that is unreadable at the first attempt and readable afterwards; its
  world is the number of attempts made.
\<close>

definition flaky_hooks :: "nat hooks" where
  "flaky_hooks =
     \<lparr>netInterfaces = mockInterfaces [] None,
      getEnvTypeFunc = (\<lambda>attempts. (''physical'', attempts)),
      getMachineIDFunc = (\<lambda>attempts.
         (if attempts = 0 then ([], Some ErrPermission) else (''unique-id'', None), attempts + 1)),
      toLowerUnicode = (\<lambda>name. name)\<rparr>"

text \<open>The hooks of a platform without a primary source, with one usable interface.\<close>

definition unknown_hooks :: "unit hooks" where
  "unknown_hooks =
     \<lparr>netInterfaces = mockInterfaces [eth0] None,
      getEnvTypeFunc = (\<lambda>w. (''physical'', w)),
      getMachineIDFunc = getMachineID_unknown,
      toLowerUnicode = (\<lambda>name. name)\<rparr>"

text \<open>
  The interfaces of \<open>TestGetHardwareID_Logic\<close>: the loopback interface, two interfaces
  with names on the deny list, and two ordinary ones enumerated in descending MAC order.
\<close>

definition lo :: Interface where
  "lo = \<lparr>Name = ''lo'', Flags = FlagLoopback, HardwareAddr = [0, 0, 0, 0, 0, 0]\<rparr>"

definition docker0 :: Interface where
  "docker0 = \<lparr>Name = ''docker0'', Flags = FlagUp, HardwareAddr = [0x02, 0x42, 0, 0, 0, 0]\<rparr>"

definition veth1234 :: Interface where
  "veth1234 = \<lparr>Name = ''veth1234'', Flags = FlagUp, HardwareAddr = [0x02, 0x42, 0, 0, 0, 1]\<rparr>"

definition eth1_22 :: Interface where
  "eth1_22 = \<lparr>Name = ''eth1'', Flags = FlagUp,
               HardwareAddr = [0x22, 0x22, 0x22, 0x22, 0x22, 0x22]\<rparr>"

definition eth0_11 :: Interface where
  "eth0_11 = \<lparr>Name = ''eth0'', Flags = FlagUp,
               HardwareAddr = [0x11, 0x11, 0x11, 0x11, 0x11, 0x11]\<rparr>"

subsection \<open>The filter of the hardware fallback, in the words of the specification\<close>

text \<open>
  An interface counts when it is not a loopback interface, has a hardware address, and its
  lower-cased name contains none of the markers \<open>docker\<close>, \<open>veth\<close>, \<open>tun\<close>, \<open>tap\<close>.
\<close>

definition denylist :: "string list" where
  "denylist = [''docker'', ''veth'', ''tun'', ''tap'']"

definition eligible :: "(string \<Rightarrow> string) \<Rightarrow> Interface \<Rightarrow> bool" where
  "eligible unicodeMap i =
     (\<not> bit (Flags i) 2 \<and> HardwareAddr i \<noteq> [] \<and>
      list_all (\<lambda>marker. \<not> Contains (ToLower unicodeMap (Name i)) marker) denylist)"

text \<open>
  A name that is not ASCII: \<open>doc\<close>, the Kelvin sign U+212A in UTF-8, \<open>er0\<close>. Go lowers
  it to \<open>docker0\<close>. \<open>kelvin_map\<close> is a value of the parameter that does so.
\<close>

definition kelvin_docker0 :: string where
  "kelvin_docker0 = ''doc'' @ [CHR 0xE2, CHR 0x84, CHR 0xAA] @ ''er0''"

definition kelvin_map :: "string \<Rightarrow> string" where
  "kelvin_map name = (if name = kelvin_docker0 then ''docker0'' else name)"

definition kelvin0 :: Interface where
  "kelvin0 = \<lparr>Name = kelvin_docker0, Flags = FlagUp, HardwareAddr = [0x02, 0x42, 0, 0, 0, 2]\<rparr>"

definition Docker0_upper :: Interface where
  "Docker0_upper = \<lparr>Name = ''DOCKER0'', Flags = FlagUp, HardwareAddr = [0x02, 0x42, 0, 0, 0, 3]\<rparr>"

text \<open>A primary source whose identity is three spaces.\<close>

definition blank_id_hooks :: "unit hooks" where
  "blank_id_hooks = mock_hooks ''physical'' (''   '', None) ([eth0], None)"

section \<open>Properties of the resolver\<close>

subsection \<open>What a hook call and the final store change\<close>

lemma invoke_fields [simp]:
  "cachedRawID (snd (invoke k f s)) = cachedRawID s"
  "cachedPrefix (snd (invoke k f s)) = cachedPrefix s"
  "initialized (snd (invoke k f s)) = initialized s"
  "calls (snd (invoke k f s)) = calls s @ [k]"
  "world (snd (invoke k f s)) = snd (f (world s))"
  "fst (invoke k f s) = fst (f (world s))"
  by (simp_all add: invoke_def split: prod.splits)

lemma getHardwareId_snd:
  "snd (getHardwareId h s) = snd (invoke NetInterfaces (netInterfaces h) s)"
  by (simp add: getHardwareId_def split: prod.splits option.splits)

lemma after_fields [simp]:
  "cachedRawID (after_env h s) = cachedRawID s"
  "cachedPrefix (after_env h s) = cachedPrefix s"
  "initialized (after_env h s) = initialized s"
  "calls (after_env h s) = calls s @ [EnvType]"
  "cachedRawID (after_primary h s) = cachedRawID s"
  "cachedPrefix (after_primary h s) = cachedPrefix s"
  "initialized (after_primary h s) = initialized s"
  "calls (after_primary h s) = calls s @ [EnvType, MachineID]"
  "cachedRawID (after_fallback h s) = cachedRawID s"
  "cachedPrefix (after_fallback h s) = cachedPrefix s"
  "initialized (after_fallback h s) = initialized s"
  "calls (after_fallback h s) = calls s @ [EnvType, MachineID, NetInterfaces]"
  by (simp_all add: after_env_def after_primary_def after_fallback_def getHardwareId_snd)

lemma store_fields:
  "fst (store p r s) = snd r"
  "initialized (snd (store p r s)) = (initialized s \<or> snd r = None)"
  "calls (snd (store p r s)) = calls s"
  "world (snd (store p r s)) = world s"
  "snd r \<noteq> None \<Longrightarrow> snd (store p r s) = s"
  "snd r = None \<Longrightarrow> cachedRawID (snd (store p r s)) = fst r"
  "snd r = None \<Longrightarrow> cachedPrefix (snd (store p r s)) = p"
  by (auto simp: store_def split: option.splits)

subsection \<open>The two paths of loadInfo\<close>

lemma loadInfo_fast: "initialized s \<Longrightarrow> loadInfo h s = (None, s)"
  by (simp add: loadInfo_def)

lemma loadInfo_slow:
  "\<not> initialized s \<Longrightarrow>
   loadInfo h s =
     (if errors_Is (snd (primary h s)) ErrNotExist \<or> primary h s = ([], None)
      then store (env_tag h s) (id_err (fallback h s)) (after_fallback h s)
      else if snd (primary h s) \<noteq> None then (snd (primary h s), after_primary h s)
      else store (env_tag h s) (primary h s) (after_primary h s))"
  unfolding loadInfo_def primary_def after_primary_def
      env_tag_def after_env_def fallback_def after_fallback_def case_prod_beta
  by (cases "fst (invoke MachineID (getMachineIDFunc h) (snd (invoke EnvType (getEnvTypeFunc h) s)))")
     (simp split: option.splits)

lemma loadInfo_calls:
  "\<not> initialized s \<Longrightarrow>
   calls (snd (loadInfo h s)) =
     calls s @ [EnvType, MachineID] @
       (if errors_Is (snd (primary h s)) ErrNotExist \<or> primary h s = ([], None)
        then [NetInterfaces] else [])"
  by (simp add: loadInfo_slow store_fields)

lemma loadInfo_success_initialized:
  "fst (loadInfo h s) = None \<Longrightarrow> initialized (snd (loadInfo h s))"
  by (cases "initialized s") (auto simp: loadInfo_fast loadInfo_slow store_fields split: if_splits)

lemma loadInfo_error_unchanged:
  assumes "fst (loadInfo h s) = Some e"
  shows "\<not> initialized s"
    and "cachedRawID (snd (loadInfo h s)) = cachedRawID s"
    and "cachedPrefix (snd (loadInfo h s)) = cachedPrefix s"
    and "initialized (snd (loadInfo h s)) = initialized s"
proof -
  show ni: "\<not> initialized s" using assms by (auto simp: loadInfo_fast)
  have "snd (loadInfo h s) = after_primary h s \<or> snd (loadInfo h s) = after_fallback h s"
    using assms ni by (auto simp: loadInfo_slow store_fields split: if_splits)
  then show "cachedRawID (snd (loadInfo h s)) = cachedRawID s"
    and "cachedPrefix (snd (loadInfo h s)) = cachedPrefix s"
    and "initialized (snd (loadInfo h s)) = initialized s"
    by auto
qed

lemma api_initialized: "initialized s \<Longrightarrow> snd (api h c s) = s"
  by (cases c) (auto simp: ID_def ProtectedID_def loadInfo_fast split: sum.splits)

lemma run_initialized: "initialized s \<Longrightarrow> snd (run h cs s) = s"
proof (induction cs)
  case Nil
  then show ?case by simp
next
  case (Cons c cs)
  then show ?case using api_initialized [of s h c]
    by (simp add: case_prod_beta)
qed

subsection \<open>Fixed hooks\<close>

lemma hardwareId_eth0: "hardwareId_of unicodeMap [eth0] = Inr ''aa:bb:cc:dd:ee:ff''"
  by code_simp

lemma mock_primary [simp]: "primary (mock_hooks env r ifs) s = r"
  by (simp add: primary_def mock_hooks_def)

lemma mock_env_tag [simp]: "env_tag (mock_hooks env r ifs) s = env"
  by (simp add: env_tag_def mock_hooks_def)

lemma mock_fallback [simp]:
  "fallback (mock_hooks env r (ifs, None)) s = hardwareId_of (\<lambda>name. name) ifs"
  "fallback (mock_hooks env r (ifs, Some e)) s = Inl e"
  by (simp_all add: fallback_def getHardwareId_def invoke_def mock_hooks_def mockInterfaces_def)

subsection \<open>When the hardware fallback runs\<close>

text \<open>
  Claim C1. In a call of \<open>loadInfo\<close> that does not take the fast path, the hooks run in
  the order classifier, primary source, and then the hardware fallback exactly when the
  primary source failed with an error for which \<open>errors.Is(err, os.ErrNotExist)\<close> holds or
  succeeded with the empty string. When the fallback runs its result is the result of the
  attempt: its error is the error returned (and nothing is marked resolved), and its
  identity is the one cached together with the environment tag.
\<close>

theorem fallback_exactly_on_not_found_or_empty:
  "\<not> initialized s \<Longrightarrow>
   calls (snd (loadInfo h s)) =
     calls s @ [EnvType, MachineID] @
       (if errors_Is (snd (primary h s)) ErrNotExist \<or> primary h s = ([], None)
        then [NetInterfaces] else []) \<and>
   (errors_Is (snd (primary h s)) ErrNotExist \<or> primary h s = ([], None) \<longrightarrow>
      (\<forall>e. fallback h s = Inl e \<longrightarrow>
         fst (loadInfo h s) = Some e \<and> \<not> initialized (snd (loadInfo h s))) \<and>
      (\<forall>v. fallback h s = Inr v \<longrightarrow>
         fst (loadInfo h s) = None \<and> initialized (snd (loadInfo h s)) \<and>
         cachedRawID (snd (loadInfo h s)) = v \<and>
         cachedPrefix (snd (loadInfo h s)) = env_tag h s))"
  by (simp add: loadInfo_calls) (auto simp: loadInfo_slow store_fields)

theorem fallback_exactly_on_not_found_or_empty_witness:
  "\<not> initialized (initial ()) \<and>
   calls (snd (loadInfo (mock_hooks ''physical'' ([], Some ErrNotExist) ([eth0], None)) (initial ())))
     = [EnvType, MachineID, NetInterfaces] \<and>
   fst (loadInfo (mock_hooks ''physical'' ([], Some ErrNotExist) ([eth0], None)) (initial ())) = None \<and>
   cachedRawID (snd (loadInfo (mock_hooks ''physical'' ([], Some ErrNotExist) ([eth0], None)) (initial ())))
     = ''aa:bb:cc:dd:ee:ff''"
proof -
  have ni: "\<not> initialized (initial ())" by (simp add: initial_def)
  show ?thesis
    using ni fallback_exactly_on_not_found_or_empty
      [OF ni, of "mock_hooks ''physical'' ([], Some ErrNotExist) ([eth0], None)"]
    by (simp add: errors_Is_def hardwareId_eth0 initial_def)
qed

text \<open>
  Claim C2. When the primary source fails with an error for which
  \<open>errors.Is(err, os.ErrNotExist)\<close> does not hold, \<open>loadInfo\<close> returns that error, the
  hardware fallback is not called (the classifier and the primary source are the only hooks
  that ran), and \<open>initialized\<close> stays false, with the cached identity and prefix as they
  were.
\<close>

theorem fatal_primary_error_returned:
  "\<not> initialized s \<Longrightarrow> snd (primary h s) = Some e \<Longrightarrow> \<not> errors_Is (Some e) ErrNotExist \<Longrightarrow>
   fst (loadInfo h s) = Some e \<and>
   calls (snd (loadInfo h s)) = calls s @ [EnvType, MachineID] \<and>
   \<not> initialized (snd (loadInfo h s)) \<and>
   cachedRawID (snd (loadInfo h s)) = cachedRawID s \<and>
   cachedPrefix (snd (loadInfo h s)) = cachedPrefix s"
  by (auto simp: loadInfo_slow)

theorem fatal_primary_error_returned_witness:
  "\<not> initialized (initial ()) \<and>
   \<not> errors_Is (Some (ErrorString ''permission denied'')) ErrNotExist \<and>
   fst (loadInfo (mock_hooks ''physical'' ([], Some (ErrorString ''permission denied'')) ([eth0], None))
         (initial ())) = Some (ErrorString ''permission denied'') \<and>
   calls (snd (loadInfo (mock_hooks ''physical'' ([], Some (ErrorString ''permission denied'')) ([eth0], None))
         (initial ()))) = [EnvType, MachineID]"
proof -
  have ni: "\<not> initialized (initial ())" by (simp add: initial_def)
  have nf: "\<not> errors_Is (Some (ErrorString ''permission denied'')) ErrNotExist"
    by (simp add: errors_Is_def)
  show ?thesis
    using ni nf fatal_primary_error_returned
      [OF ni _ nf, of "mock_hooks ''physical'' ([], Some (ErrorString ''permission denied'')) ([eth0], None)"]
    by (simp add: initial_def)
qed

subsection \<open>The resolution state\<close>

text \<open>
  Claim C3. \<open>initialized\<close> only goes from false to true: once it is true it stays true
  through \<open>loadInfo\<close> and through every sequence of \<open>ID\<close> and \<open>ProtectedID\<close> calls.
  When \<open>loadInfo\<close> returns an error, \<open>cachedRawID\<close>, \<open>cachedPrefix\<close> and
  \<open>initialized\<close> are what they were before the call and \<open>initialized\<close> is false: the
  state differs from the state before only in the world and in the record of hook calls.
  The next \<open>loadInfo\<close> therefore runs the whole resolution again: it calls the classifier
  and the primary source again, and the hardware fallback again whenever the primary source
  is then missing or empty.
\<close>

theorem failure_leaves_cache_and_retries:
  "(initialized s \<longrightarrow> initialized (snd (loadInfo h s)) \<and> initialized (snd (run h cs s))) \<and>
   (\<forall>e. fst (loadInfo h s) = Some e \<longrightarrow>
      cachedRawID (snd (loadInfo h s)) = cachedRawID s \<and>
      cachedPrefix (snd (loadInfo h s)) = cachedPrefix s \<and>
      initialized (snd (loadInfo h s)) = initialized s \<and>
      \<not> initialized (snd (loadInfo h s)) \<and>
      snd (loadInfo h s) = s\<lparr>world := world (snd (loadInfo h s)), calls := calls (snd (loadInfo h s))\<rparr> \<and>
      calls (snd (loadInfo h (snd (loadInfo h s)))) =
        calls (snd (loadInfo h s)) @ [EnvType, MachineID] @
          (if errors_Is (snd (primary h (snd (loadInfo h s)))) ErrNotExist \<or>
              primary h (snd (loadInfo h s)) = ([], None)
           then [NetInterfaces] else []))"
proof (intro conjI impI allI)
  assume "initialized s"
  then show "initialized (snd (loadInfo h s))" "initialized (snd (run h cs s))"
    by (simp_all add: loadInfo_fast run_initialized)
next
  fix e assume err: "fst (loadInfo h s) = Some e"
  note u = loadInfo_error_unchanged [OF err]
  show "cachedRawID (snd (loadInfo h s)) = cachedRawID s"
    and "cachedPrefix (snd (loadInfo h s)) = cachedPrefix s"
    and "initialized (snd (loadInfo h s)) = initialized s"
    by (rule u)+
  show ni: "\<not> initialized (snd (loadInfo h s))" using u by simp
  show "snd (loadInfo h s) = s\<lparr>world := world (snd (loadInfo h s)), calls := calls (snd (loadInfo h s))\<rparr>"
    using u by (intro machine.equality) simp_all
  show "calls (snd (loadInfo h (snd (loadInfo h s)))) =
        calls (snd (loadInfo h s)) @ [EnvType, MachineID] @
          (if errors_Is (snd (primary h (snd (loadInfo h s)))) ErrNotExist \<or>
              primary h (snd (loadInfo h s)) = ([], None)
           then [NetInterfaces] else [])"
    by (rule loadInfo_calls [OF ni])
qed

text \<open>The two attempts with the primary source that is unreadable once.\<close>

lemma flaky_first:
  "loadInfo flaky_hooks (initial 0) =
     (Some ErrPermission,
      \<lparr>cachedRawID = [], cachedPrefix = [], initialized = False, world = Suc 0,
       calls = [EnvType, MachineID]\<rparr>)"
  by (simp add: loadInfo_def flaky_hooks_def initial_def invoke_def errors_Is_def store_def)

lemma flaky_second:
  "loadInfo flaky_hooks
     \<lparr>cachedRawID = [], cachedPrefix = [], initialized = False, world = Suc 0,
      calls = [EnvType, MachineID]\<rparr> =
     (None,
      \<lparr>cachedRawID = ''unique-id'', cachedPrefix = ''physical'', initialized = True,
       world = Suc (Suc 0), calls = [EnvType, MachineID, EnvType, MachineID]\<rparr>)"
  by (simp add: loadInfo_def flaky_hooks_def invoke_def errors_Is_def store_def)

theorem failure_leaves_cache_and_retries_witness:
  "fst (loadInfo flaky_hooks (initial 0)) = Some ErrPermission \<and>
   \<not> initialized (snd (loadInfo flaky_hooks (initial 0))) \<and>
   cachedRawID (snd (loadInfo flaky_hooks (initial 0))) = cachedRawID (initial (0::nat)) \<and>
   calls (snd (loadInfo flaky_hooks (snd (loadInfo flaky_hooks (initial 0))))) =
     [EnvType, MachineID, EnvType, MachineID] \<and>
   fst (loadInfo flaky_hooks (snd (loadInfo flaky_hooks (initial 0)))) = None"
proof -
  have err: "fst (loadInfo flaky_hooks (initial 0)) = Some ErrPermission"
    by (simp add: flaky_first)
  note t = failure_leaves_cache_and_retries
    [of "initial 0" flaky_hooks "[]", THEN conjunct2, rule_format, OF err]
  have "cachedRawID (snd (loadInfo flaky_hooks (initial 0))) = cachedRawID (initial (0::nat))"
    by (rule t [THEN conjunct1])
  moreover have "\<not> initialized (snd (loadInfo flaky_hooks (initial 0)))"
    by (rule t [THEN conjunct2, THEN conjunct2, THEN conjunct2, THEN conjunct1])
  moreover have
    "calls (snd (loadInfo flaky_hooks (snd (loadInfo flaky_hooks (initial 0))))) =
       [EnvType, MachineID, EnvType, MachineID] \<and>
     fst (loadInfo flaky_hooks (snd (loadInfo flaky_hooks (initial 0)))) = None"
    by (simp add: flaky_first flaky_second)
  ultimately show ?thesis using err by blast
qed

text \<open>The first resolution with the counting primary source of the idempotency test.\<close>

lemma counting_first: "loadInfo counting_hooks (initial 0) =
  (None, \<lparr>cachedRawID = ''unique-id'', cachedPrefix = ''test-env'', initialized = True, world = 1,
          calls = [EnvType, MachineID]\<rparr>)"
  by (simp add: loadInfo_def counting_hooks_def initial_def invoke_def errors_Is_def store_def)

text \<open>
  Claim C4. After a \<open>loadInfo\<close> that succeeded, a further \<open>loadInfo\<close> returns nil and
  changes nothing, and any sequence of \<open>ID\<close> and \<open>ProtectedID\<close> calls leaves the whole
  state as it was: no hook is called (the record of calls and the world are the same, so a
  counter incremented by the primary source keeps its value), and the cached identity and
  prefix are the same.
\<close>

theorem success_is_cached:
  "fst (loadInfo h s) = None \<Longrightarrow>
   loadInfo h (snd (loadInfo h s)) = (None, snd (loadInfo h s)) \<and>
   snd (run h cs (snd (loadInfo h s))) = snd (loadInfo h s) \<and>
   calls (snd (run h cs (snd (loadInfo h s)))) = calls (snd (loadInfo h s)) \<and>
   cachedRawID (snd (run h cs (snd (loadInfo h s)))) = cachedRawID (snd (loadInfo h s)) \<and>
   cachedPrefix (snd (run h cs (snd (loadInfo h s)))) = cachedPrefix (snd (loadInfo h s))"
  using loadInfo_success_initialized [of h s]
  by (simp add: loadInfo_fast run_initialized)

theorem success_is_cached_witness:
  "fst (loadInfo counting_hooks (initial 0)) = None \<and>
   world (snd (loadInfo counting_hooks (initial 0))) = 1 \<and>
   world (snd (run counting_hooks [Call_ID, Call_ProtectedID ''my-app'', Call_ID, Call_ID]
                 (snd (loadInfo counting_hooks (initial 0))))) = 1 \<and>
   calls (snd (run counting_hooks [Call_ID, Call_ProtectedID ''my-app'', Call_ID, Call_ID]
                 (snd (loadInfo counting_hooks (initial 0))))) = [EnvType, MachineID]"
proof -
  have ok: "fst (loadInfo counting_hooks (initial 0)) = None"
    by (simp add: counting_first)
  show ?thesis
    using ok success_is_cached [OF ok, of "[Call_ID, Call_ProtectedID ''my-app'', Call_ID, Call_ID]"]
    by (simp add: counting_first)
qed

subsection \<open>Platforms without a primary source\<close>

lemma unknown_primary:
  "getMachineIDFunc h = getMachineID_unknown \<Longrightarrow>
   primary h s = ([], Some (ErrorString ''os not supported''))"
  by (simp add: primary_def getMachineID_unknown_def)

lemma unknown_not_notexist: "\<not> errors_Is (Some (ErrorString ''os not supported'')) ErrNotExist"
  by (simp add: errors_Is_def)

lemma unknown_loadInfo:
  "getMachineIDFunc h = getMachineID_unknown \<Longrightarrow> \<not> initialized s \<Longrightarrow>
   loadInfo h s = (Some (ErrorString ''os not supported''), after_primary h s)"
  by (simp add: loadInfo_slow unknown_primary unknown_not_notexist)

lemma unknown_api:
  "getMachineIDFunc h = getMachineID_unknown \<Longrightarrow> \<not> initialized s \<Longrightarrow>
   api h c s = (Inl (ErrorString ''os not supported''), after_primary h s)"
  by (cases c) (simp_all add: ID_def ProtectedID_def unknown_loadInfo)

lemma unknown_run:
  "getMachineIDFunc h = getMachineID_unknown \<Longrightarrow> \<not> initialized s \<Longrightarrow>
   fst (run h cs s) = replicate (length cs) (Inl (ErrorString ''os not supported'')) \<and>
   \<not> initialized (snd (run h cs s)) \<and>
   calls (snd (run h cs s)) = calls s @ concat (replicate (length cs) [EnvType, MachineID])"
proof (induction cs arbitrary: s)
  case Nil
  then show ?case by simp
next
  case (Cons c cs)
  have ni: "\<not> initialized (after_primary h s)" using Cons.prems by simp
  show ?case
    using Cons.IH [OF Cons.prems(1) ni] Cons.prems
    by (simp add: unknown_api case_prod_beta)
qed

text \<open>
  Claim C10. With \<open>getMachineID\<close> of \<open>id_unknown.go\<close> as the primary source, the primary
  result is the error \<open>os not supported\<close>, for which \<open>errors.Is(err, os.ErrNotExist)\<close> is
  false. From an unresolved state \<open>loadInfo\<close> returns that error, and every call in any
  sequence of \<open>ID\<close> and \<open>ProtectedID\<close> calls fails with it; the state stays unresolved
  and the only hooks that run are the classifier and the primary source, once per call:
  \<open>netInterfaces\<close> is never called.
\<close>

theorem unsupported_os_always_fails:
  "getMachineIDFunc h = getMachineID_unknown \<Longrightarrow> \<not> initialized s \<Longrightarrow>
   primary h s = ([], Some (ErrorString ''os not supported'')) \<and>
   \<not> errors_Is (snd (primary h s)) ErrNotExist \<and>
   fst (loadInfo h s) = Some (ErrorString ''os not supported'') \<and>
   calls (snd (loadInfo h s)) = calls s @ [EnvType, MachineID] \<and>
   fst (run h cs s) = replicate (length cs) (Inl (ErrorString ''os not supported'')) \<and>
   \<not> initialized (snd (run h cs s)) \<and>
   calls (snd (run h cs s)) = calls s @ concat (replicate (length cs) [EnvType, MachineID]) \<and>
   NetInterfaces \<notin> set (concat (replicate (length cs) [EnvType, MachineID]))"
  using unknown_run [of h s cs]
  by (auto simp: unknown_primary unknown_not_notexist unknown_loadInfo)

theorem unsupported_os_always_fails_witness:
  "getMachineIDFunc unknown_hooks = getMachineID_unknown \<and> \<not> initialized (initial ()) \<and>
   fst (run unknown_hooks [Call_ID, Call_ProtectedID ''app-a'', Call_ID] (initial ())) =
     [Inl (ErrorString ''os not supported''), Inl (ErrorString ''os not supported''),
      Inl (ErrorString ''os not supported'')] \<and>
   calls (snd (run unknown_hooks [Call_ID, Call_ProtectedID ''app-a'', Call_ID] (initial ()))) =
     [EnvType, MachineID, EnvType, MachineID, EnvType, MachineID]"
proof -
  have g: "getMachineIDFunc unknown_hooks = getMachineID_unknown"
    by (simp add: unknown_hooks_def)
  have ni: "\<not> initialized (initial ())" by (simp add: initial_def)
  show ?thesis
    using g ni unsupported_os_always_fails
      [OF g ni, of "[Call_ID, Call_ProtectedID ''app-a'', Call_ID]"]
    by (simp add: initial_def)
qed

section \<open>Properties of the hardware fallback\<close>

subsection \<open>Substrings and the loopback flag\<close>

lemma is_prefix_iff: "is_prefix p s \<longleftrightarrow> (\<exists>suf. s = p @ suf)"
proof
  assume "is_prefix p s"
  then have "s = p @ drop (length p) s"
    by (metis append_take_drop_id is_prefix_def)
  then show "\<exists>suf. s = p @ suf" ..
next
  assume "\<exists>suf. s = p @ suf"
  then show "is_prefix p s" by (auto simp: is_prefix_def)
qed

lemma Contains_iff: "Contains s substr \<longleftrightarrow> (\<exists>pre suf. s = pre @ substr @ suf)"
proof (induction s)
  case Nil
  then show ?case by simp
next
  case (Cons c cs)
  show ?case
  proof
    assume "Contains (c # cs) substr"
    then consider "is_prefix substr (c # cs)" | "Contains cs substr" by auto
    then show "\<exists>pre suf. c # cs = pre @ substr @ suf"
    proof cases
      case 1
      then obtain suf where "c # cs = substr @ suf" using is_prefix_iff by blast
      then have "c # cs = [] @ substr @ suf" by simp
      then show ?thesis by blast
    next
      case 2
      then obtain pre suf where "cs = pre @ substr @ suf" using Cons.IH by blast
      then have "c # cs = (c # pre) @ substr @ suf" by simp
      then show ?thesis by blast
    qed
  next
    assume "\<exists>pre suf. c # cs = pre @ substr @ suf"
    then obtain pre suf where e: "c # cs = pre @ substr @ suf" by blast
    show "Contains (c # cs) substr"
    proof (cases pre)
      case Nil
      with e have "is_prefix substr (c # cs)" using is_prefix_iff by auto
      then show ?thesis by simp
    next
      case (Cons d pre')
      with e have "cs = pre' @ substr @ suf" by simp
      then have "Contains cs substr" using Cons.IH by blast
      then show ?thesis by simp
    qed
  qed
qed

lemma loopback_bit: "Flags i AND FlagLoopback \<noteq> 0 \<longleftrightarrow> bit (Flags i) 2"
proof -
  have f: "FlagLoopback = 2 ^ 2" by (simp add: FlagLoopback_def)
  have "Flags i AND 2 ^ 2 = 0 \<longleftrightarrow> \<not> bit (Flags i) 2"
    by (rule and_exp_eq_0_iff_not_bit)
  then show ?thesis unfolding f by blast
qed

subsection \<open>Lower-casing of names\<close>

lemma ToLower_ascii: "isASCII name \<Longrightarrow> ToLower unicodeMap name = map lower_byte name"
proof -
  have "\<not> hasUpper name \<Longrightarrow> map lower_byte name = name"
    by (induction name) (auto simp: hasUpper_def lower_byte_def)
  then show "isASCII name \<Longrightarrow> ToLower unicodeMap name = map lower_byte name"
    by (simp add: ToLower_def)
qed

lemma ToLower_not_ascii: "\<not> isASCII name \<Longrightarrow> ToLower unicodeMap name = unicodeMap name"
  by (simp add: ToLower_def)

lemma lower_byte_upper:
  "map lower_byte ''ABCDEFGHIJKLMNOPQRSTUVWXYZ'' = ''abcdefghijklmnopqrstuvwxyz''"
  by code_simp

lemma ascii_names:
  "isASCII ''docker0''" "isASCII ''veth1234''" "isASCII ''eth0''" "isASCII ''DOCKER0''"
  "isASCII ''Veth1234''" "isASCII ''TUN0''" "isASCII ''tAp0''"
  by code_simp+

lemma lowered_names:
  "map lower_byte ''docker0'' = ''docker0''" "map lower_byte ''veth1234'' = ''veth1234''"
  "map lower_byte ''eth0'' = ''eth0''" "map lower_byte ''DOCKER0'' = ''docker0''"
  "map lower_byte ''Veth1234'' = ''veth1234''" "map lower_byte ''TUN0'' = ''tun0''"
  "map lower_byte ''tAp0'' = ''tap0''"
  by code_simp+

lemma ToLower_names:
  "ToLower unicodeMap ''docker0'' = ''docker0''" "ToLower unicodeMap ''veth1234'' = ''veth1234''"
  "ToLower unicodeMap ''eth0'' = ''eth0''" "ToLower unicodeMap ''DOCKER0'' = ''docker0''"
  "ToLower unicodeMap ''Veth1234'' = ''veth1234''" "ToLower unicodeMap ''TUN0'' = ''tun0''"
  "ToLower unicodeMap ''tAp0'' = ''tap0''"
  by (simp_all only: ToLower_ascii ascii_names lowered_names)

lemma kelvin_not_ascii: "\<not> isASCII kelvin_docker0"
  by code_simp

lemma ToLower_kelvin: "ToLower unicodeMap kelvin_docker0 = unicodeMap kelvin_docker0"
  by (rule ToLower_not_ascii [OF kelvin_not_ascii])

lemma marker_found:
  "Contains ''docker0'' ''docker''" "Contains ''veth1234'' ''veth''"
  "Contains ''tun0'' ''tun''" "Contains ''tap0'' ''tap''"
  by code_simp+

lemma eth0_allowed: "list_all (\<lambda>marker. \<not> Contains ''eth0'' marker) denylist"
  by code_simp

subsection \<open>Which addresses are collected\<close>

lemma collect_macs_eq:
  "collect_macs unicodeMap ifs macs =
     macs @ map (\<lambda>i. HardwareAddr_String (HardwareAddr i)) (filter (eligible unicodeMap) ifs)"
proof (induction ifs arbitrary: macs)
  case Nil
  then show ?case by simp
next
  case (Cons i ifs)
  have e: "eligible unicodeMap i \<longleftrightarrow>
      \<not> (Flags i AND FlagLoopback \<noteq> 0 \<or> length (HardwareAddr i) = 0) \<and>
      \<not> (Contains (ToLower unicodeMap (Name i)) ''docker'' \<or>
         Contains (ToLower unicodeMap (Name i)) ''veth'' \<or>
         Contains (ToLower unicodeMap (Name i)) ''tun'' \<or>
         Contains (ToLower unicodeMap (Name i)) ''tap'')"
    unfolding loopback_bit eligible_def denylist_def by auto
  show ?case
  proof (cases "eligible unicodeMap i")
    case True
    then show ?thesis using e Cons.IH by simp
  next
    case False
    then show ?thesis using e Cons.IH by auto
  qed
qed

lemma hardwareId_of_eq:
  "hardwareId_of unicodeMap ifs =
     (if filter (eligible unicodeMap) ifs = []
      then Inl (ErrorString ''no valid network interfaces found for hardware ID fallback'')
      else Inr (Join (sort (map (\<lambda>i. HardwareAddr_String (HardwareAddr i))
                             (filter (eligible unicodeMap) ifs)))
                  '',''))"
proof -
  have "sort (map (\<lambda>i. HardwareAddr_String (HardwareAddr i)) (filter (eligible unicodeMap) ifs)) = []
          \<longleftrightarrow> filter (eligible unicodeMap) ifs = []"
    by (metis length_0_conv length_map length_sort)
  then show ?thesis
    by (simp add: hardwareId_of_def collect_macs_eq Let_def)
qed

lemma getHardwareId_mock:
  "fst (getHardwareId (h\<lparr>netInterfaces := mockInterfaces ifs None\<rparr>) s) =
     hardwareId_of (toLowerUnicode h) ifs"
  by (simp add: getHardwareId_def invoke_def mockInterfaces_def)

lemma getHardwareId_mock_map:
  "fst (getHardwareId (h\<lparr>netInterfaces := mockInterfaces ifs None,
                         toLowerUnicode := unicodeMap\<rparr>) s) =
     hardwareId_of unicodeMap ifs"
  by (simp add: getHardwareId_def invoke_def mockInterfaces_def)

lemma eligible_iff:
  "eligible unicodeMap i \<longleftrightarrow>
     \<not> bit (Flags i) 2 \<and> HardwareAddr i \<noteq> [] \<and>
     (\<forall>marker\<in>set denylist. \<not> (\<exists>pre suf. ToLower unicodeMap (Name i) = pre @ marker @ suf))"
  by (simp add: eligible_def list_all_iff Contains_iff)

lemma denylist_members:
  "''docker'' \<in> set denylist" "''veth'' \<in> set denylist"
  "''tun'' \<in> set denylist" "''tap'' \<in> set denylist"
  by (simp_all add: denylist_def)

lemma not_eligible_marker:
  assumes "marker \<in> set denylist" "Contains (ToLower unicodeMap (Name i)) marker"
  shows "\<not> eligible unicodeMap i"
  using assms by (auto simp: eligible_def list_all_iff)

lemma upper_case_names_denied:
  assumes "Name i = ''DOCKER0'' \<or> Name i = ''Veth1234'' \<or> Name i = ''TUN0'' \<or> Name i = ''tAp0''"
  shows "\<not> eligible unicodeMap i"
proof -
  consider "Name i = ''DOCKER0''" | "Name i = ''Veth1234''" | "Name i = ''TUN0''"
    | "Name i = ''tAp0''"
    using assms by blast
  then show ?thesis
  proof cases
    case 1
    then have "Contains (ToLower unicodeMap (Name i)) ''docker''"
      by (simp only: ToLower_names marker_found)
    then show ?thesis by (rule not_eligible_marker [OF denylist_members(1)])
  next
    case 2
    then have "Contains (ToLower unicodeMap (Name i)) ''veth''"
      by (simp only: ToLower_names marker_found)
    then show ?thesis by (rule not_eligible_marker [OF denylist_members(2)])
  next
    case 3
    then have "Contains (ToLower unicodeMap (Name i)) ''tun''"
      by (simp only: ToLower_names marker_found)
    then show ?thesis by (rule not_eligible_marker [OF denylist_members(3)])
  next
    case 4
    then have "Contains (ToLower unicodeMap (Name i)) ''tap''"
      by (simp only: ToLower_names marker_found)
    then show ?thesis by (rule not_eligible_marker [OF denylist_members(4)])
  qed
qed

lemma kelvin_name_denied:
  assumes "unicodeMap kelvin_docker0 = ''docker0''" "Name i = kelvin_docker0"
  shows "\<not> eligible unicodeMap i"
proof -
  have "Contains (ToLower unicodeMap (Name i)) ''docker''"
    by (simp only: assms ToLower_kelvin marker_found)
  then show ?thesis by (rule not_eligible_marker [OF denylist_members(1)])
qed

lemma eth0_mac: "HardwareAddr_String [0xAA, 0xBB, 0xCC, 0xDD, 0xEE, 0xFF] = ''aa:bb:cc:dd:ee:ff''"
  by code_simp

lemma example_filter:
  assumes "bit (Flags l) 2" "Name d = ''docker0''" "Name v = ''veth1234''"
    and "Name e = ''eth0''" "\<not> bit (Flags e) 2"
    and "HardwareAddr e = [0xAA, 0xBB, 0xCC, 0xDD, 0xEE, 0xFF]"
  shows "hardwareId_of unicodeMap [l, d, v, e] = Inr ''aa:bb:cc:dd:ee:ff''"
proof -
  have "\<not> eligible unicodeMap l" using assms(1) by (simp add: eligible_def)
  moreover have "\<not> eligible unicodeMap d"
  proof -
    have "Contains (ToLower unicodeMap (Name d)) ''docker''"
      by (simp only: assms(2) ToLower_names marker_found)
    then show ?thesis by (rule not_eligible_marker [OF denylist_members(1)])
  qed
  moreover have "\<not> eligible unicodeMap v"
  proof -
    have "Contains (ToLower unicodeMap (Name v)) ''veth''"
      by (simp only: assms(3) ToLower_names marker_found)
    then show ?thesis by (rule not_eligible_marker [OF denylist_members(2)])
  qed
  moreover have "eligible unicodeMap e"
  proof -
    have "list_all (\<lambda>marker. \<not> Contains (ToLower unicodeMap (Name e)) marker) denylist"
      by (simp only: assms(4) ToLower_names eth0_allowed)
    moreover have "HardwareAddr e \<noteq> []" by (simp add: assms(6))
    ultimately show ?thesis using assms(5) by (simp only: eligible_def simp_thms)
  qed
  ultimately have "filter (eligible unicodeMap) [l, d, v, e] = [e]" by simp
  then show ?thesis
    by (simp only: hardwareId_of_eq) (simp add: assms(6) eth0_mac)
qed

text \<open>
  Claim C6. The loop of \<open>getHardwareId\<close> collects the address of exactly the interfaces
  that are not loopback (bit 2 of the flags, which is what the test against
  \<open>FlagLoopback\<close> reads), have a non-empty hardware address, and whose lower-cased name
  contains none of \<open>docker\<close>, \<open>veth\<close>, \<open>tun\<close>, \<open>tap\<close> as a substring, in enumeration
  order. The lower-cased name is what \<open>strings.ToLower\<close> returns: for an ASCII name each
  byte from \<open>A\<close> to \<open>Z\<close> lowered, so \<open>DOCKER0\<close>, \<open>Veth1234\<close>, \<open>TUN0\<close> and \<open>tAp0\<close> are
  left out; for any other name whatever the Unicode case tables give, so a name with the
  Kelvin sign for the \<open>k\<close> of \<open>docker0\<close> is left out when the tables lower it to
  \<open>docker0\<close>, as Go's do. When no interface is left the result is the error
  \<open>no valid network interfaces found for hardware ID fallback\<close>, otherwise an identity is
  returned. For a loopback interface, interfaces named \<open>docker0\<close> and \<open>veth1234\<close>, and a
  non-loopback \<open>eth0\<close> with the address aa:bb:cc:dd:ee:ff, the result is exactly
  \<open>aa:bb:cc:dd:ee:ff\<close>. All of this holds for every value of the case tables.
\<close>

theorem hardware_fallback_filter:
  "collect_macs unicodeMap ifs [] =
     map (\<lambda>i. HardwareAddr_String (HardwareAddr i)) (filter (eligible unicodeMap) ifs) \<and>
   (eligible unicodeMap i \<longleftrightarrow>
      \<not> bit (Flags i) 2 \<and> HardwareAddr i \<noteq> [] \<and>
      (\<forall>marker\<in>set [''docker'', ''veth'', ''tun'', ''tap''].
         \<not> (\<exists>pre suf. ToLower unicodeMap (Name i) = pre @ marker @ suf))) \<and>
   (Flags i AND FlagLoopback \<noteq> 0 \<longleftrightarrow> bit (Flags i) 2) \<and>
   (isASCII name \<longrightarrow> ToLower unicodeMap name = map lower_byte name) \<and>
   (\<not> isASCII name \<longrightarrow> ToLower unicodeMap name = unicodeMap name) \<and>
   map lower_byte ''ABCDEFGHIJKLMNOPQRSTUVWXYZ'' = ''abcdefghijklmnopqrstuvwxyz'' \<and>
   (Name i = ''DOCKER0'' \<or> Name i = ''Veth1234'' \<or> Name i = ''TUN0'' \<or> Name i = ''tAp0''
      \<longrightarrow> \<not> eligible unicodeMap i) \<and>
   (unicodeMap kelvin_docker0 = ''docker0'' \<and> Name i = kelvin_docker0
      \<longrightarrow> \<not> eligible unicodeMap i) \<and>
   (filter (eligible unicodeMap) ifs = [] \<longrightarrow>
      hardwareId_of unicodeMap ifs =
        Inl (ErrorString ''no valid network interfaces found for hardware ID fallback'') \<and>
      fst (getHardwareId (h\<lparr>netInterfaces := mockInterfaces ifs None,
                             toLowerUnicode := unicodeMap\<rparr>) s) =
        Inl (ErrorString ''no valid network interfaces found for hardware ID fallback'')) \<and>
   (filter (eligible unicodeMap) ifs \<noteq> [] \<longrightarrow> (\<exists>v. hardwareId_of unicodeMap ifs = Inr v)) \<and>
   (bit (Flags l) 2 \<and> Name d = ''docker0'' \<and> Name v = ''veth1234'' \<and>
    Name e = ''eth0'' \<and> \<not> bit (Flags e) 2 \<and>
    HardwareAddr e = [0xAA, 0xBB, 0xCC, 0xDD, 0xEE, 0xFF] \<longrightarrow>
      hardwareId_of unicodeMap [l, d, v, e] = Inr ''aa:bb:cc:dd:ee:ff'' \<and>
      fst (getHardwareId (h\<lparr>netInterfaces := mockInterfaces [l, d, v, e] None,
                             toLowerUnicode := unicodeMap\<rparr>) s) =
        Inr ''aa:bb:cc:dd:ee:ff'')"
proof (intro conjI impI)
  show "collect_macs unicodeMap ifs [] =
     map (\<lambda>i. HardwareAddr_String (HardwareAddr i)) (filter (eligible unicodeMap) ifs)"
    by (simp add: collect_macs_eq)
  show "eligible unicodeMap i \<longleftrightarrow>
      \<not> bit (Flags i) 2 \<and> HardwareAddr i \<noteq> [] \<and>
      (\<forall>marker\<in>set [''docker'', ''veth'', ''tun'', ''tap''].
         \<not> (\<exists>pre suf. ToLower unicodeMap (Name i) = pre @ marker @ suf))"
    using eligible_iff [of unicodeMap i] by (simp only: denylist_def)
  show "Flags i AND FlagLoopback \<noteq> 0 \<longleftrightarrow> bit (Flags i) 2"
    by (rule loopback_bit)
  show "map lower_byte ''ABCDEFGHIJKLMNOPQRSTUVWXYZ'' = ''abcdefghijklmnopqrstuvwxyz''"
    by (rule lower_byte_upper)
next
  assume "isASCII name"
  then show "ToLower unicodeMap name = map lower_byte name" by (rule ToLower_ascii)
next
  assume "\<not> isASCII name"
  then show "ToLower unicodeMap name = unicodeMap name" by (rule ToLower_not_ascii)
next
  assume "Name i = ''DOCKER0'' \<or> Name i = ''Veth1234'' \<or> Name i = ''TUN0'' \<or> Name i = ''tAp0''"
  then show "\<not> eligible unicodeMap i" by (rule upper_case_names_denied)
next
  assume "unicodeMap kelvin_docker0 = ''docker0'' \<and> Name i = kelvin_docker0"
  then show "\<not> eligible unicodeMap i" using kelvin_name_denied by blast
next
  assume "filter (eligible unicodeMap) ifs = []"
  then show x: "hardwareId_of unicodeMap ifs =
        Inl (ErrorString ''no valid network interfaces found for hardware ID fallback'')"
    by (simp add: hardwareId_of_eq)
  show "fst (getHardwareId (h\<lparr>netInterfaces := mockInterfaces ifs None,
                             toLowerUnicode := unicodeMap\<rparr>) s) =
        Inl (ErrorString ''no valid network interfaces found for hardware ID fallback'')"
    by (simp only: getHardwareId_mock_map x)
next
  assume "filter (eligible unicodeMap) ifs \<noteq> []"
  then show "\<exists>v. hardwareId_of unicodeMap ifs = Inr v" by (simp add: hardwareId_of_eq)
next
  assume a: "bit (Flags l) 2 \<and> Name d = ''docker0'' \<and> Name v = ''veth1234'' \<and>
    Name e = ''eth0'' \<and> \<not> bit (Flags e) 2 \<and>
    HardwareAddr e = [0xAA, 0xBB, 0xCC, 0xDD, 0xEE, 0xFF]"
  then show x: "hardwareId_of unicodeMap [l, d, v, e] = Inr ''aa:bb:cc:dd:ee:ff''"
    by (intro example_filter) simp_all
  show "fst (getHardwareId (h\<lparr>netInterfaces := mockInterfaces [l, d, v, e] None,
                             toLowerUnicode := unicodeMap\<rparr>) s) =
        Inr ''aa:bb:cc:dd:ee:ff''"
    by (simp only: getHardwareId_mock_map x)
qed

lemma lo_loopback: "bit (Flags lo) 2"
  by (simp add: lo_def FlagLoopback_def)

lemma eth0_not_loopback: "\<not> bit (Flags eth0) 2"
  by (simp add: eth0_def FlagUp_def)

theorem hardware_fallback_filter_witness:
  "hardwareId_of kelvin_map [lo, docker0, veth1234, eth0] = Inr ''aa:bb:cc:dd:ee:ff'' \<and>
   fst (getHardwareId (mock_hooks ''physical'' ([], Some ErrNotExist) ([], None)
          \<lparr>netInterfaces := mockInterfaces [lo, docker0, veth1234, eth0] None,
            toLowerUnicode := kelvin_map\<rparr>) (initial ())) =
     Inr ''aa:bb:cc:dd:ee:ff'' \<and>
   \<not> eligible kelvin_map kelvin0 \<and>
   \<not> eligible kelvin_map Docker0_upper"
proof -
  note t = hardware_fallback_filter
    [of kelvin_map "[]" kelvin0 "''DOCKER0''"
        "mock_hooks ''physical'' ([], Some ErrNotExist) ([], None)" "initial ()"
        lo docker0 veth1234 eth0]
  note u = hardware_fallback_filter
    [of kelvin_map "[]" Docker0_upper "''DOCKER0''"
        "mock_hooks ''physical'' ([], Some ErrNotExist) ([], None)" "initial ()"
        lo docker0 veth1234 eth0]
  have a: "bit (Flags lo) 2 \<and> Name docker0 = ''docker0'' \<and> Name veth1234 = ''veth1234'' \<and>
    Name eth0 = ''eth0'' \<and> \<not> bit (Flags eth0) 2 \<and>
    HardwareAddr eth0 = [0xAA, 0xBB, 0xCC, 0xDD, 0xEE, 0xFF]"
    using lo_loopback eth0_not_loopback by (simp add: docker0_def veth1234_def eth0_def)
  have k: "kelvin_map kelvin_docker0 = ''docker0'' \<and> Name kelvin0 = kelvin_docker0"
    by (simp add: kelvin_map_def kelvin0_def)
  have d: "Name Docker0_upper = ''DOCKER0'' \<or> Name Docker0_upper = ''Veth1234'' \<or>
    Name Docker0_upper = ''TUN0'' \<or> Name Docker0_upper = ''tAp0''"
    by (simp add: Docker0_upper_def)
  have "hardwareId_of kelvin_map [lo, docker0, veth1234, eth0] = Inr ''aa:bb:cc:dd:ee:ff'' \<and>
      fst (getHardwareId (mock_hooks ''physical'' ([], Some ErrNotExist) ([], None)
          \<lparr>netInterfaces := mockInterfaces [lo, docker0, veth1234, eth0] None,
            toLowerUnicode := kelvin_map\<rparr>) (initial ())) =
        Inr ''aa:bb:cc:dd:ee:ff''"
    by (rule t [THEN conjunct2, THEN conjunct2, THEN conjunct2, THEN conjunct2, THEN conjunct2,
                THEN conjunct2, THEN conjunct2, THEN conjunct2, THEN conjunct2, THEN conjunct2,
                THEN mp, OF a])
  moreover have "\<not> eligible kelvin_map kelvin0"
    by (rule t [THEN conjunct2, THEN conjunct2, THEN conjunct2, THEN conjunct2, THEN conjunct2,
                THEN conjunct2, THEN conjunct2, THEN conjunct1, THEN mp, OF k])
  moreover have "\<not> eligible kelvin_map Docker0_upper"
    by (rule u [THEN conjunct2, THEN conjunct2, THEN conjunct2, THEN conjunct2, THEN conjunct2,
                THEN conjunct2, THEN conjunct1, THEN mp, OF d])
  ultimately show ?thesis by blast
qed

subsection \<open>Enumeration order\<close>

lemma sort_mset_eq:
  fixes xs ys :: "'a::linorder list"
  assumes "mset xs = mset ys"
  shows "sort xs = sort ys"
proof (rule properties_for_sort)
  show "mset (sort ys) = mset xs" using assms by simp
  show "sorted (sort ys)" by simp
qed

lemma hardwareId_of_perm:
  assumes "mset ifs = mset ifs'"
  shows "hardwareId_of unicodeMap ifs = hardwareId_of unicodeMap ifs'"
proof -
  have "mset (filter (eligible unicodeMap) ifs) = mset (filter (eligible unicodeMap) ifs')"
    using assms by (simp only: mset_filter)
  then have "mset (map (\<lambda>i. HardwareAddr_String (HardwareAddr i)) (filter (eligible unicodeMap) ifs)) =
      mset (map (\<lambda>i. HardwareAddr_String (HardwareAddr i)) (filter (eligible unicodeMap) ifs'))"
    by (simp only: mset_map)
  then have "mset (collect_macs unicodeMap ifs []) = mset (collect_macs unicodeMap ifs' [])"
    by (simp only: collect_macs_eq append_Nil)
  then have "sort (collect_macs unicodeMap ifs []) = sort (collect_macs unicodeMap ifs' [])"
    by (rule sort_mset_eq)
  then show ?thesis by (simp add: hardwareId_of_def)
qed

lemma sorting_example:
  "hardwareId_of unicodeMap [eth1_22, eth0_11] = Inr ''11:11:11:11:11:11,22:22:22:22:22:22''"
  by code_simp

text \<open>
  Claim C7. Two interface lists that are permutations of each other give the same result
  of \<open>getHardwareId\<close>. A returned identity is the collected addresses in ascending
  order (bytewise lexicographic, the order of \<open>sort.Strings\<close>) joined by commas. With
  \<open>eth1\<close> (22:22:22:22:22:22) enumerated before \<open>eth0\<close> (11:11:11:11:11:11) the result is
  \<open>11:11:11:11:11:11,22:22:22:22:22:22\<close>. This holds for every value of the case tables
  behind \<open>strings.ToLower\<close>.
\<close>

theorem hardware_id_order_independent:
  "mset ifs = mset ifs' \<Longrightarrow>
   hardwareId_of unicodeMap ifs = hardwareId_of unicodeMap ifs' \<and>
   fst (getHardwareId (h\<lparr>netInterfaces := mockInterfaces ifs None\<rparr>) s) =
     fst (getHardwareId (h\<lparr>netInterfaces := mockInterfaces ifs' None\<rparr>) s) \<and>
   (\<forall>v. hardwareId_of unicodeMap ifs = Inr v \<longrightarrow>
      (\<exists>macs. sorted macs \<and>
         mset macs = mset (map (\<lambda>i. HardwareAddr_String (HardwareAddr i))
                            (filter (eligible unicodeMap) ifs)) \<and>
         v = Join macs '','')) \<and>
   hardwareId_of unicodeMap [eth1_22, eth0_11] = Inr ''11:11:11:11:11:11,22:22:22:22:22:22'' \<and>
   fst (getHardwareId (h\<lparr>netInterfaces := mockInterfaces [eth1_22, eth0_11] None\<rparr>) s) =
     Inr ''11:11:11:11:11:11,22:22:22:22:22:22''"
proof (intro conjI allI impI)
  assume p: "mset ifs = mset ifs'"
  show "hardwareId_of unicodeMap ifs = hardwareId_of unicodeMap ifs'"
    by (rule hardwareId_of_perm [OF p])
  show "fst (getHardwareId (h\<lparr>netInterfaces := mockInterfaces ifs None\<rparr>) s) =
     fst (getHardwareId (h\<lparr>netInterfaces := mockInterfaces ifs' None\<rparr>) s)"
    by (simp only: getHardwareId_mock hardwareId_of_perm [OF p])
next
  fix v assume "hardwareId_of unicodeMap ifs = Inr v"
  then have "v = Join (sort (map (\<lambda>i. HardwareAddr_String (HardwareAddr i))
                               (filter (eligible unicodeMap) ifs))) '',''"
    by (simp add: hardwareId_of_eq split: if_splits)
  moreover have "sorted (sort (map (\<lambda>i. HardwareAddr_String (HardwareAddr i))
                               (filter (eligible unicodeMap) ifs)))"
    by simp
  moreover have "mset (sort (map (\<lambda>i. HardwareAddr_String (HardwareAddr i))
                               (filter (eligible unicodeMap) ifs))) =
      mset (map (\<lambda>i. HardwareAddr_String (HardwareAddr i)) (filter (eligible unicodeMap) ifs))"
    by simp
  ultimately show "\<exists>macs. sorted macs \<and>
         mset macs = mset (map (\<lambda>i. HardwareAddr_String (HardwareAddr i))
                            (filter (eligible unicodeMap) ifs)) \<and>
         v = Join macs '',''"
    by blast
next
  show "hardwareId_of unicodeMap [eth1_22, eth0_11] = Inr ''11:11:11:11:11:11,22:22:22:22:22:22''"
    by (rule sorting_example)
  show "fst (getHardwareId (h\<lparr>netInterfaces := mockInterfaces [eth1_22, eth0_11] None\<rparr>) s) =
     Inr ''11:11:11:11:11:11,22:22:22:22:22:22''"
    by (simp only: getHardwareId_mock sorting_example)
qed

theorem hardware_id_order_independent_witness:
  "mset [eth1_22, eth0_11] = mset [eth0_11, eth1_22] \<and>
   hardwareId_of kelvin_map [eth0_11, eth1_22] = Inr ''11:11:11:11:11:11,22:22:22:22:22:22''"
proof -
  have p: "mset [eth1_22, eth0_11] = mset [eth0_11, eth1_22]" by simp
  note t = hardware_id_order_independent
    [OF p, of kelvin_map "mock_hooks ''physical'' ([], Some ErrNotExist) ([], None)" "initial ()"]
  have "hardwareId_of kelvin_map [eth1_22, eth0_11] = hardwareId_of kelvin_map [eth0_11, eth1_22]"
    by (rule t [THEN conjunct1])
  moreover have "hardwareId_of kelvin_map [eth1_22, eth0_11] =
      Inr ''11:11:11:11:11:11,22:22:22:22:22:22''"
    by (rule t [THEN conjunct2, THEN conjunct2, THEN conjunct2, THEN conjunct1])
  ultimately show ?thesis using p by simp
qed

section \<open>Properties of the hasher\<close>

subsection \<open>What TrimSpace removes\<close>

lemma space_encodings_no_empty: "[] \<notin> set space_encodings"
  by code_simp

lemma space_encodings_nonempty: "p \<in> set space_encodings \<Longrightarrow> p \<noteq> []"
  using space_encodings_no_empty by auto

lemma leading_space_Nil: "leading_space [] = 0"
  by code_simp

lemma trailing_space_Nil: "trailing_space [] = 0"
  by code_simp

lemma leading_space_0: "leading_space s = 0 \<longleftrightarrow> (\<forall>p\<in>set space_encodings. \<not> is_prefix p s)"
proof
  assume z: "leading_space s = 0"
  show "\<forall>p\<in>set space_encodings. \<not> is_prefix p s"
  proof (cases "filter (\<lambda>p. is_prefix p s) space_encodings")
    case Nil
    then show ?thesis by (auto simp: filter_empty_conv)
  next
    case (Cons p ps)
    then have "p \<in> set (filter (\<lambda>p. is_prefix p s) space_encodings)" by simp
    then have "p \<in> set space_encodings" by simp
    with z Cons show ?thesis using space_encodings_nonempty by (auto simp: leading_space_def)
  qed
next
  assume "\<forall>p\<in>set space_encodings. \<not> is_prefix p s"
  then have "filter (\<lambda>p. is_prefix p s) space_encodings = []" by (auto simp: filter_empty_conv)
  then show "leading_space s = 0" by (simp add: leading_space_def)
qed

lemma leading_space_pos:
  assumes "leading_space s \<noteq> 0"
  shows "\<exists>p\<in>set space_encodings. s = p @ drop (leading_space s) s"
proof (cases "filter (\<lambda>p. is_prefix p s) space_encodings")
  case Nil
  with assms show ?thesis by (simp add: leading_space_def)
next
  case (Cons p ps)
  then have "p \<in> set (filter (\<lambda>p. is_prefix p s) space_encodings)" by simp
  then have p: "p \<in> set space_encodings" "is_prefix p s" by auto
  have n: "leading_space s = length p" using Cons by (simp add: leading_space_def)
  have "s = take (length p) s @ drop (length p) s" by simp
  with p n show ?thesis by (auto simp: is_prefix_def)
qed

lemma trailing_space_0: "trailing_space s = 0 \<longleftrightarrow> (\<forall>p\<in>set space_encodings. \<not> is_suffix p s)"
proof
  assume z: "trailing_space s = 0"
  show "\<forall>p\<in>set space_encodings. \<not> is_suffix p s"
  proof (cases "filter (\<lambda>p. is_suffix p s) space_encodings")
    case Nil
    then show ?thesis by (auto simp: filter_empty_conv)
  next
    case (Cons p ps)
    then have "p \<in> set (filter (\<lambda>p. is_suffix p s) space_encodings)" by simp
    then have "p \<in> set space_encodings" by simp
    with z Cons show ?thesis using space_encodings_nonempty by (auto simp: trailing_space_def)
  qed
next
  assume "\<forall>p\<in>set space_encodings. \<not> is_suffix p s"
  then have "filter (\<lambda>p. is_suffix p s) space_encodings = []" by (auto simp: filter_empty_conv)
  then show "trailing_space s = 0" by (simp add: trailing_space_def)
qed

lemma trailing_space_pos:
  assumes "trailing_space s \<noteq> 0"
  shows "\<exists>p\<in>set space_encodings. s = take (length s - trailing_space s) s @ p"
proof (cases "filter (\<lambda>p. is_suffix p s) space_encodings")
  case Nil
  with assms show ?thesis by (simp add: trailing_space_def)
next
  case (Cons p ps)
  then have "p \<in> set (filter (\<lambda>p. is_suffix p s) space_encodings)" by simp
  then have p: "p \<in> set space_encodings" "is_suffix p s" by auto
  have n: "trailing_space s = length p" using Cons by (simp add: trailing_space_def)
  have "s = take (length s - length p) s @ drop (length s - length p) s" by simp
  with p n show ?thesis by (auto simp: is_suffix_def)
qed

lemma TrimLeft_space_spec:
  "\<exists>ps. set ps \<subseteq> set space_encodings \<and> s = concat ps @ TrimLeft_space s"
proof (induction s rule: TrimLeft_space.induct)
  case (1 s)
  show ?case
  proof (cases "s = [] \<or> leading_space s = 0")
    case True
    then have "TrimLeft_space s = s" by simp
    then have "set [] \<subseteq> set space_encodings \<and> s = concat [] @ TrimLeft_space s" by simp
    then show ?thesis by blast
  next
    case False
    then obtain p where p: "p \<in> set space_encodings" "s = p @ drop (leading_space s) s"
      using leading_space_pos by blast
    from 1 [OF False] obtain ps where ps: "set ps \<subseteq> set space_encodings"
      "drop (leading_space s) s = concat ps @ TrimLeft_space (drop (leading_space s) s)" by blast
    have t: "TrimLeft_space s = TrimLeft_space (drop (leading_space s) s)"
      using False by (subst TrimLeft_space.simps) simp
    have "set (p # ps) \<subseteq> set space_encodings \<and> s = concat (p # ps) @ TrimLeft_space s"
      using p ps t by (metis append.assoc concat.simps(2) insert_subset list.simps(15))
    then show ?thesis by blast
  qed
qed

lemma TrimLeft_space_done: "leading_space (TrimLeft_space s) = 0"
proof (induction s rule: TrimLeft_space.induct)
  case (1 s)
  show ?case
  proof (cases "s = [] \<or> leading_space s = 0")
    case True
    then have t: "TrimLeft_space s = s" by simp
    show ?thesis
    proof (cases "s = []")
      case True
      then show ?thesis using t leading_space_Nil by simp
    next
      case False
      with True t show ?thesis by simp
    qed
  next
    case False
    have t: "TrimLeft_space s = TrimLeft_space (drop (leading_space s) s)"
      using False by (subst TrimLeft_space.simps) simp
    show ?thesis using 1 [OF False] t by simp
  qed
qed

lemma TrimRight_space_spec:
  "\<exists>ps. set ps \<subseteq> set space_encodings \<and> s = TrimRight_space s @ concat ps"
proof (induction s rule: TrimRight_space.induct)
  case (1 s)
  show ?case
  proof (cases "s = [] \<or> trailing_space s = 0")
    case True
    then have "TrimRight_space s = s" by simp
    then have "set [] \<subseteq> set space_encodings \<and> s = TrimRight_space s @ concat []" by simp
    then show ?thesis by blast
  next
    case False
    then obtain p where p: "p \<in> set space_encodings" "s = take (length s - trailing_space s) s @ p"
      using trailing_space_pos by blast
    from 1 [OF False] obtain ps where ps: "set ps \<subseteq> set space_encodings"
      "take (length s - trailing_space s) s =
         TrimRight_space (take (length s - trailing_space s) s) @ concat ps" by blast
    have t: "TrimRight_space s = TrimRight_space (take (length s - trailing_space s) s)"
      using False by (subst TrimRight_space.simps) simp
    have "s = TrimRight_space s @ concat ps @ p"
      using p(2) ps(2) t by (metis append.assoc)
    then have "set (ps @ [p]) \<subseteq> set space_encodings \<and> s = TrimRight_space s @ concat (ps @ [p])"
      using p(1) ps(1) by simp
    then show ?thesis by blast
  qed
qed

lemma TrimRight_space_done: "trailing_space (TrimRight_space s) = 0"
proof (induction s rule: TrimRight_space.induct)
  case (1 s)
  show ?case
  proof (cases "s = [] \<or> trailing_space s = 0")
    case True
    then have t: "TrimRight_space s = s" by simp
    show ?thesis
    proof (cases "s = []")
      case True
      then show ?thesis using t trailing_space_Nil by simp
    next
      case False
      with True t show ?thesis by simp
    qed
  next
    case False
    have t: "TrimRight_space s = TrimRight_space (take (length s - trailing_space s) s)"
      using False by (subst TrimRight_space.simps) simp
    show ?thesis using 1 [OF False] t by simp
  qed
qed

lemma is_prefix_append:
  assumes "is_prefix p t"
  shows "is_prefix p (t @ u)"
proof -
  have "length (take (length p) t) = length p" using assms by (simp add: is_prefix_def)
  then have "length p \<le> length t" by simp
  then show ?thesis using assms by (simp add: is_prefix_def)
qed

lemma TrimSpace_spec:
  "\<exists>ps qs. set ps \<subseteq> set space_encodings \<and> set qs \<subseteq> set space_encodings \<and>
     s = concat ps @ TrimSpace s @ concat qs"
proof -
  obtain ps where ps: "set ps \<subseteq> set space_encodings" "s = concat ps @ TrimLeft_space s"
    using TrimLeft_space_spec by blast
  obtain qs where qs: "set qs \<subseteq> set space_encodings"
    "TrimLeft_space s = TrimRight_space (TrimLeft_space s) @ concat qs"
    using TrimRight_space_spec by blast
  have "s = concat ps @ TrimSpace s @ concat qs"
    using ps(2) qs(2) by (simp add: TrimSpace_def)
  with ps(1) qs(1) show ?thesis by blast
qed

lemma TrimSpace_done:
  assumes p: "p \<in> set space_encodings"
  shows "\<not> is_prefix p (TrimSpace s) \<and> \<not> is_suffix p (TrimSpace s)"
proof
  obtain qs where "TrimLeft_space s = TrimRight_space (TrimLeft_space s) @ concat qs"
    using TrimRight_space_spec [of "TrimLeft_space s"] by blast
  then have qs: "TrimLeft_space s = TrimSpace s @ concat qs"
    by (simp only: TrimSpace_def)
  have "leading_space (TrimLeft_space s) = 0" by (rule TrimLeft_space_done)
  then have n: "\<not> is_prefix p (TrimLeft_space s)"
    using p by (simp only: leading_space_0) blast
  show "\<not> is_prefix p (TrimSpace s)"
  proof
    assume "is_prefix p (TrimSpace s)"
    then have "is_prefix p (TrimSpace s @ concat qs)" by (rule is_prefix_append)
    then have "is_prefix p (TrimLeft_space s)" by (simp only: qs [symmetric])
    with n show False by contradiction
  qed
  have "trailing_space (TrimSpace s) = 0"
    unfolding TrimSpace_def by (rule TrimRight_space_done)
  then show "\<not> is_suffix p (TrimSpace s)"
    using p by (simp only: trailing_space_0) blast
qed

subsection \<open>The digest in hexadecimal\<close>

lemma hexDigit_lower:
  assumes "unat b < 16"
  shows "hexDigit b \<in> set ''0123456789abcdef''"
proof -
  have "''0123456789abcdef'' ! unat b \<in> set ''0123456789abcdef''"
    by (rule nth_mem) (use assms in simp)
  then show ?thesis by (simp only: hexDigit_def)
qed

lemma high_nibble: "unat (drop_bit 4 (b::byte)) < 16"
proof -
  have "unat b < 256" using unsigned_less [of b] by simp
  then show ?thesis by (simp add: drop_bit_eq_div unat_div)
qed

lemma low_nibble: "unat ((b::byte) AND 0x0f) < 16"
proof -
  have "unat (b AND 15) \<le> unat (15 :: byte)"
    by (rule word_and_le1 [THEN word_le_nat_alt [THEN iffD1]])
  then show ?thesis by simp
qed

lemma EncodeToString_length: "length (EncodeToString bs) = 2 * length bs"
  by (induction bs) (simp_all add: EncodeToString_def)

lemma EncodeToString_Cons:
  "EncodeToString (b # bs) =
     hexDigit (drop_bit 4 b) # hexDigit (b AND 0x0f) # EncodeToString bs"
  by (simp only: EncodeToString_def list.map concat.simps append.simps)

lemma EncodeToString_lower: "set (EncodeToString bs) \<subseteq> set ''0123456789abcdef''"
proof (induction bs)
  case Nil
  then show ?case by (simp add: EncodeToString_def)
next
  case (Cons b bs)
  define A where "A = set ''0123456789abcdef''"
  have h: "hexDigit (drop_bit 4 b) \<in> A"
    unfolding A_def by (rule hexDigit_lower [OF high_nibble])
  have l: "hexDigit (b AND 0x0f) \<in> A"
    unfolding A_def by (rule hexDigit_lower [OF low_nibble])
  have "set (EncodeToString bs) \<subseteq> A" using Cons.IH unfolding A_def .
  then have "set (EncodeToString (b # bs)) \<subseteq> A"
    using h l by (simp only: EncodeToString_Cons list.set insert_subset)
  then show ?case unfolding A_def .
qed

lemma add_regs_length: "length (add_regs hs r) = length hs"
  by (induction hs r rule: add_regs.induct) simp_all

lemma block_length: "length (block hs p) = length hs"
  by (simp add: block_def add_regs_length)

lemma blockGeneric_length: "length (blockGeneric hs p) = length hs"
proof (induction hs p rule: blockGeneric.induct)
  case (1 hs p)
  show ?case
  proof (cases "64 \<le> length p")
    case True
    then have "blockGeneric hs p = blockGeneric (block hs p) (drop 64 p)"
      by (subst blockGeneric.simps) simp
    then show ?thesis using 1 [OF True] by (simp add: block_length)
  next
    case False
    then show ?thesis by (subst blockGeneric.simps) simp
  qed
qed

lemma PutUint32_length: "length (PutUint32 v) = 4"
  by (simp add: PutUint32_def)

lemma concat_PutUint32_length: "length (concat (map PutUint32 hs)) = 4 * length hs"
  by (induction hs) (simp_all add: PutUint32_length)

lemma init_h_length: "length init_h = 8"
  by (simp add: init_h_def)

lemma Sum256_length: "length (Sum256 msg) = 32"
  by (simp only: Sum256_def concat_PutUint32_length blockGeneric_length init_h_length)

lemma digest_hex: "length (EncodeToString (Sum256 msg)) = 64"
  by (simp only: EncodeToString_length Sum256_length)


subsection \<open>protect\<close>

lemma protect_eq:
  "protect s =
     (if TrimSpace s = [] then Inl (ErrorString ''empty machine id'')
      else Inr (EncodeToString (Sum256 (bytes_of (TrimSpace s)))))"
  by (simp add: protect_def Let_def)

lemma TrimSpace_blank: "TrimSpace ''   '' = []"
  by code_simp

lemma TrimSpace_test_id: "TrimSpace ''test-id'' = ''test-id''"
  by code_simp

lemma TrimSpace_padded_test_id: "TrimSpace ''  test-id  '' = ''test-id''"
  by code_simp

lemma digest_test_id:
  "EncodeToString (Sum256 (bytes_of ''test-id'')) =
     ''6cc41d5ec590ab78cccecf81ef167d418c309a4598e8e45fef78039f7d9aa9fe''"
  by code_simp

text \<open>
  Claim C5. For every string \<open>s\<close>, \<open>protect s\<close> fails with the error
  \<open>empty machine id\<close> when \<open>TrimSpace s\<close> is empty and otherwise returns the
  hexadecimal encoding of the SHA-256 digest of \<open>TrimSpace s\<close>. \<open>TrimSpace s\<close> is \<open>s\<close>
  without a leading and a trailing run of white-space runes, and neither starts nor ends
  with one. The encoded digest is 64 characters, each a digit or a letter from \<open>a\<close> to
  \<open>f\<close>. A string of three spaces is rejected, and the result for \<open>test-id\<close> is the
  SHA-256 digest of these seven bytes as \<open>sha256sum\<close> prints it.
\<close>

theorem protect_trims_then_hashes:
  "protect s =
     (if TrimSpace s = [] then Inl (ErrorString ''empty machine id'')
      else Inr (EncodeToString (Sum256 (bytes_of (TrimSpace s))))) \<and>
   (\<exists>ps qs. set ps \<subseteq> set space_encodings \<and> set qs \<subseteq> set space_encodings \<and>
      s = concat ps @ TrimSpace s @ concat qs) \<and>
   (\<forall>p\<in>set space_encodings. \<not> is_prefix p (TrimSpace s) \<and> \<not> is_suffix p (TrimSpace s)) \<and>
   length (EncodeToString (Sum256 (bytes_of (TrimSpace s)))) = 64 \<and>
   set (EncodeToString (Sum256 (bytes_of (TrimSpace s)))) \<subseteq> set ''0123456789abcdef'' \<and>
   protect ''   '' = Inl (ErrorString ''empty machine id'') \<and>
   protect ''test-id'' =
     Inr ''6cc41d5ec590ab78cccecf81ef167d418c309a4598e8e45fef78039f7d9aa9fe''"
proof (intro conjI)
  show "protect s =
     (if TrimSpace s = [] then Inl (ErrorString ''empty machine id'')
      else Inr (EncodeToString (Sum256 (bytes_of (TrimSpace s)))))"
    by (rule protect_eq)
  show "\<exists>ps qs. set ps \<subseteq> set space_encodings \<and> set qs \<subseteq> set space_encodings \<and>
      s = concat ps @ TrimSpace s @ concat qs"
    by (rule TrimSpace_spec)
  show "\<forall>p\<in>set space_encodings. \<not> is_prefix p (TrimSpace s) \<and> \<not> is_suffix p (TrimSpace s)"
    using TrimSpace_done by blast
  show "length (EncodeToString (Sum256 (bytes_of (TrimSpace s)))) = 64"
    by (rule digest_hex)
  show "set (EncodeToString (Sum256 (bytes_of (TrimSpace s)))) \<subseteq> set ''0123456789abcdef''"
    by (rule EncodeToString_lower)
  show "protect ''   '' = Inl (ErrorString ''empty machine id'')"
    by (simp only: protect_eq TrimSpace_blank simp_thms if_True)
  show "protect ''test-id'' =
     Inr ''6cc41d5ec590ab78cccecf81ef167d418c309a4598e8e45fef78039f7d9aa9fe''"
    by (simp only: protect_eq TrimSpace_test_id digest_test_id) simp
qed

theorem protect_trims_then_hashes_witness:
  "protect ''  test-id  '' =
     Inr ''6cc41d5ec590ab78cccecf81ef167d418c309a4598e8e45fef78039f7d9aa9fe''"
proof -
  have "protect ''  test-id  '' =
     (if TrimSpace ''  test-id  '' = [] then Inl (ErrorString ''empty machine id'')
      else Inr (EncodeToString (Sum256 (bytes_of (TrimSpace ''  test-id  '')))))"
    by (rule protect_trims_then_hashes [of "''  test-id  ''", THEN conjunct1])
  then show ?thesis
    by (simp only: TrimSpace_padded_test_id digest_test_id) simp
qed

section \<open>Properties of the identifiers\<close>

subsection \<open>The results of ID and ProtectedID\<close>

lemma ID_result:
  "ID h s =
     (case fst (loadInfo h s) of
        Some err \<Rightarrow> (Inl err, snd (loadInfo h s))
      | None \<Rightarrow>
          (if TrimSpace (cachedRawID (snd (loadInfo h s))) = []
           then (Inl (ErrorString ''empty machine id''), snd (loadInfo h s))
           else (Inr (cachedPrefix (snd (loadInfo h s)) @ '':'' @
                      EncodeToString (Sum256 (bytes_of (TrimSpace (cachedRawID (snd (loadInfo h s))))))),
                 snd (loadInfo h s))))"
  by (cases "loadInfo h s") (simp add: ID_def protect_eq split: option.splits)

lemma ProtectedID_result:
  "ProtectedID h appID s =
     (case fst (loadInfo h s) of
        Some err \<Rightarrow> (Inl err, snd (loadInfo h s))
      | None \<Rightarrow>
          (if TrimSpace (cachedRawID (snd (loadInfo h s)) @ '':'' @ appID) = []
           then (Inl (ErrorString ''empty machine id''), snd (loadInfo h s))
           else (Inr (cachedPrefix (snd (loadInfo h s)) @ '':'' @
                      EncodeToString (Sum256 (bytes_of
                        (TrimSpace (cachedRawID (snd (loadInfo h s)) @ '':'' @ appID))))),
                 snd (loadInfo h s))))"
  by (cases "loadInfo h s") (simp add: ProtectedID_def protect_eq split: option.splits)

subsection \<open>Identities whose hash cannot fail\<close>

lemma empty_trim_all_space:
  assumes "TrimSpace s = []" "c \<in> set s"
  shows "\<exists>p\<in>set space_encodings. c \<in> set p"
proof -
  obtain ps qs where sp: "set ps \<subseteq> set space_encodings" "set qs \<subseteq> set space_encodings"
    "s = concat ps @ TrimSpace s @ concat qs"
    using TrimSpace_spec by blast
  then have "s = concat (ps @ qs)" using assms(1) by simp
  then obtain p where "p \<in> set (ps @ qs)" "c \<in> set p" using assms(2) by auto
  then show ?thesis using sp(1,2) by auto
qed

lemma colon_not_space: "list_all (\<lambda>p. CHR '':'' \<notin> set p) space_encodings"
  by code_simp

lemma hex_not_space:
  "list_all (\<lambda>p. list_all (\<lambda>c. c \<notin> set ''0123456789abcdef'') p) space_encodings"
  by code_simp

lemma scoped_input_not_blank: "TrimSpace (raw @ '':'' @ appID) \<noteq> []"
proof
  assume "TrimSpace (raw @ '':'' @ appID) = []"
  moreover have "CHR '':'' \<in> set (raw @ '':'' @ appID)" by simp
  ultimately obtain p where "p \<in> set space_encodings" "CHR '':'' \<in> set p"
    using empty_trim_all_space by blast
  then show False using colon_not_space by (simp add: list_all_iff)
qed

lemma ProtectedID_after_success:
  "fst (loadInfo h s) = None \<Longrightarrow> \<exists>v. fst (ProtectedID h appID s) = Inr v"
  using scoped_input_not_blank [of "cachedRawID (snd (loadInfo h s))" appID]
  by (simp add: ProtectedID_result)

lemma Join_Cons: "\<exists>rest. Join (x # xs) sep = x @ rest"
  by (cases xs) simp_all

lemma HardwareAddr_String_hd:
  assumes "a \<noteq> []"
  shows "\<exists>r. HardwareAddr_String a = hexDigit (drop_bit 4 (hd a)) # r"
proof -
  obtain b bs where a: "a = b # bs" using assms by (cases a) auto
  obtain rest where
    "Join ([hexDigit (drop_bit 4 b), hexDigit (b AND 0x0f)] #
           map (\<lambda>b. [hexDigit (drop_bit 4 b), hexDigit (b AND 0x0f)]) bs) '':'' =
     [hexDigit (drop_bit 4 b), hexDigit (b AND 0x0f)] @ rest"
    using Join_Cons by blast
  then show ?thesis by (simp add: HardwareAddr_String_def a)
qed

lemma fallback_identity_starts_with_hex:
  assumes "hardwareId_of unicodeMap ifs = Inr v"
  shows "\<exists>c r. v = c # r \<and> c \<in> set ''0123456789abcdef''"
proof -
  let ?macs = "map (\<lambda>i. HardwareAddr_String (HardwareAddr i)) (filter (eligible unicodeMap) ifs)"
  have ne: "filter (eligible unicodeMap) ifs \<noteq> []" and v: "v = Join (sort ?macs) '',''"
    using assms by (auto simp: hardwareId_of_eq split: if_splits)
  from ne have "sort ?macs \<noteq> []" by (metis length_0_conv length_map length_sort)
  then obtain m ms where ms: "sort ?macs = m # ms" by (cases "sort ?macs") auto
  then have "m \<in> set (sort ?macs)" by simp
  then have "m \<in> set ?macs" by simp
  then obtain i where i: "eligible unicodeMap i" "m = HardwareAddr_String (HardwareAddr i)" by auto
  then have "HardwareAddr i \<noteq> []" by (simp add: eligible_def)
  then obtain r where r: "m = hexDigit (drop_bit 4 (hd (HardwareAddr i))) # r"
    using HardwareAddr_String_hd i(2) by blast
  obtain rest where "Join (m # ms) '','' = m @ rest" using Join_Cons by blast
  then have "v = hexDigit (drop_bit 4 (hd (HardwareAddr i))) # r @ rest"
    using v ms r by simp
  moreover have "hexDigit (drop_bit 4 (hd (HardwareAddr i))) \<in> set ''0123456789abcdef''"
    by (rule hexDigit_lower [OF high_nibble])
  ultimately show ?thesis by blast
qed

lemma fallback_identity_hashes:
  assumes "hardwareId_of unicodeMap ifs = Inr v"
  shows "\<exists>d. protect v = Inr d"
proof -
  obtain c r where c: "v = c # r" "c \<in> set ''0123456789abcdef''"
    using fallback_identity_starts_with_hex [OF assms] by blast
  have "TrimSpace v \<noteq> []"
  proof
    assume "TrimSpace v = []"
    moreover have "c \<in> set v" using c(1) by simp
    ultimately obtain p where "p \<in> set space_encodings" "c \<in> set p"
      using empty_trim_all_space by blast
    then show False using hex_not_space c(2) by (auto simp: list_all_iff)
  qed
  then show ?thesis by (simp add: protect_eq)
qed

subsection \<open>An identity of white space\<close>

lemma blank_loadInfo:
  "loadInfo blank_id_hooks (initial ()) =
     (None, \<lparr>cachedRawID = ''   '', cachedPrefix = ''physical'', initialized = True,
             world = (), calls = [EnvType, MachineID]\<rparr>)"
  by (simp add: loadInfo_def blank_id_hooks_def mock_hooks_def initial_def invoke_def
      errors_Is_def store_def)

text \<open>
  Claim C9. \<open>loadInfo\<close> compares the primary identity with the empty string, while
  \<open>protect\<close> rejects what is empty after \<open>TrimSpace\<close>. A primary source that returns
  three spaces and no error is therefore accepted: \<open>loadInfo\<close> succeeds without calling the
  fallback, caches the three spaces and sets \<open>initialized\<close>; \<open>ID\<close> then fails with
  \<open>empty machine id\<close>, and it fails at every later call, because the fast path never
  resolves again.
\<close>

theorem blank_identity_is_cached_and_ID_fails:
  "fst (loadInfo blank_id_hooks (initial ())) = None \<and>
   initialized (snd (loadInfo blank_id_hooks (initial ()))) \<and>
   cachedRawID (snd (loadInfo blank_id_hooks (initial ()))) = ''   '' \<and>
   calls (snd (loadInfo blank_id_hooks (initial ()))) = [EnvType, MachineID] \<and>
   fst (ID blank_id_hooks (snd (loadInfo blank_id_hooks (initial ())))) =
     Inl (ErrorString ''empty machine id'') \<and>
   fst (run blank_id_hooks [Call_ID, Call_ID, Call_ID] (initial ())) =
     [Inl (ErrorString ''empty machine id''), Inl (ErrorString ''empty machine id''),
      Inl (ErrorString ''empty machine id'')] \<and>
   calls (snd (run blank_id_hooks [Call_ID, Call_ID, Call_ID] (initial ()))) =
     [EnvType, MachineID]"
  by (simp add: blank_loadInfo ID_result loadInfo_fast TrimSpace_blank)

end
